theory Spec2Isabelle
  imports Complex_Main
begin

unbundle bit_operations_syntax

section \<open>IEEE binary64 arithmetic as the program uses it\<close>

text \<open>
  The strength array has dtype float, \<open>DECAY_RATE\<close> is a Python float and so are the
  probabilities and the draws of \<open>random.random()\<close>. A finite binary64 value is
  modelled by the rational number it denotes; every arithmetic operation computes the
  exact rational result and rounds it to the nearest binary64 value, ties to even
  (the only rounding mode Python and numpy use). Infinities and NaN do not arise:
  the arrays start at zero, a deposit stores 1, the decay clips into \<open>[0, 1]\<close>, and the
  only operations are \<open>x - DECAY_RATE\<close>, \<open>0.8 * x\<close> and \<open>0.2 * x\<close>. Beyond the largest
  binary64 value, where the hardware would overflow, \<open>round64\<close> goes on rounding at the
  largest exponent; no operation of the program gets there.

  \<open>expo x\<close> is the binary exponent of \<open>x\<close>, kept inside the range of binary64
  (\<open>-1022\<close> for subnormal numbers, at most \<open>1023\<close>); the spacing of binary64 values
  around \<open>x\<close> is \<open>2 powi (expo x - 52)\<close>.
\<close>

fun expo_up :: "nat \<Rightarrow> int \<Rightarrow> rat \<Rightarrow> int" where
  "expo_up n e x = (if n = 0 \<or> x < 2 powi (e + 1) then e else expo_up (n - 1) (e + 1) x)"

fun expo_down :: "nat \<Rightarrow> int \<Rightarrow> rat \<Rightarrow> int" where
  "expo_down n e x = (if n = 0 \<or> 2 powi e \<le> x then e else expo_down (n - 1) (e - 1) x)"

definition expo :: "rat \<Rightarrow> int" where
  "expo x = (if 1 \<le> \<bar>x\<bar> then expo_up 1023 0 \<bar>x\<bar> else expo_down 1021 (- 1) \<bar>x\<bar>)"

text \<open>Rounding a rational to the nearest integer, ties to the even one.\<close>

definition rne :: "rat \<Rightarrow> int" where
  "rne y = (let f = \<lfloor>y\<rfloor>; d = y - of_int f in
     if d < 1 / 2 then f else if 1 / 2 < d then f + 1 else if even f then f else f + 1)"

definition round64 :: "rat \<Rightarrow> rat" where
  "round64 x = (let q = 2 powi (expo x - 52) in of_int (rne (x / q)) * q)"

text \<open>A rational is a binary64 value when rounding leaves it alone.\<close>

definition is_float64 :: "rat \<Rightarrow> bool" where
  "is_float64 x = (round64 x = x)"

text \<open>A decimal literal such as \<open>0.8\<close> denotes the binary64 value nearest to it.\<close>

definition float_lit :: "rat \<Rightarrow> rat" where
  "float_lit x = round64 x"

definition float_sub :: "rat \<Rightarrow> rat \<Rightarrow> rat" where
  "float_sub a b = round64 (a - b)"

definition float_mul :: "rat \<Rightarrow> rat \<Rightarrow> rat" where
  "float_mul a b = round64 (a * b)"

text \<open>True division \<open>a / b\<close> of two Python ints that are exact as floats.\<close>

definition int_truediv :: "int \<Rightarrow> int \<Rightarrow> rat" where
  "int_truediv a b = round64 (of_int a / of_int b)"

text \<open>\<open>np.clip(x, lo, hi)\<close> on one element: \<open>minimum(maximum(x, lo), hi)\<close>.\<close>

definition np_clip :: "rat \<Rightarrow> rat \<Rightarrow> rat \<Rightarrow> rat" where
  "np_clip x lo hi = min (max x lo) hi"

section \<open>Module constants\<close>

text \<open>
  \<open>GRID_SIZE\<close> (1000 in the source) is a parameter of every operation below, so that
  the behaviour on other grid sides can be stated; the decay constants are the source's.
\<close>

definition PHEROMONE_DECAY_STEPS :: int where
  "PHEROMONE_DECAY_STEPS = 5"

definition DECAY_RATE :: rat where
  "DECAY_RATE = int_truediv 1 PHEROMONE_DECAY_STEPS"

definition DIRECTIONS :: "(int \<times> int) list" where
  "DIRECTIONS = [(0, - 1), (1, 0), (0, 1), (- 1, 0)]"

section \<open>Errors and indexing\<close>

datatype error = IndexError | OverflowError | ZeroDivisionError | ValueError | MemoryError

text \<open>
  An index \<open>i\<close> into an axis of length \<open>n\<close> (numpy array or Python list) is valid when
  \<open>-n \<le> i < n\<close>; a negative index counts from the end; anything else raises IndexError.
\<close>

definition wrap_index :: "int \<Rightarrow> int \<Rightarrow> int" where
  "wrap_index n i = (if i < 0 then i + n else i)"

definition check_index :: "int \<Rightarrow> int \<Rightarrow> error + int" where
  "check_index n i = (if - n \<le> i \<and> i < n then Inr (wrap_index n i) else Inl IndexError)"

definition list_getitem :: "'a list \<Rightarrow> int \<Rightarrow> error + 'a" where
  "list_getitem xs i =
     (case check_index (int (length xs)) i of
        Inl e \<Rightarrow> Inl e
      | Inr j \<Rightarrow> Inr (xs ! nat j))"

text \<open>Storing a Python int into an int64 array raises OverflowError outside int64.\<close>

definition fits_int64 :: "int \<Rightarrow> bool" where
  "fits_int64 v = (- (2 ^ 63) \<le> v \<and> v < 2 ^ 63)"

text \<open>
  A two-dimensional array of shape \<open>(GRID_SIZE, GRID_SIZE)\<close> is a function of the
  (row, column) pair; only pairs inside the shape are ever read or written by \<open>move\<close>.
\<close>

type_synonym 'a array2 = "int \<times> int \<Rightarrow> 'a"

text \<open>
  \<open>np.zeros((n, n))\<close> with 8-byte elements (int64 or float64). It raises ValueError on
  a negative dimension, ValueError again (``array is too big'') when the size in bytes
  \<open>8 * n * n\<close> does not fit a signed 64-bit integer, and MemoryError when the
  allocator refuses a block of that size. What the allocator grants is not in the
  source: \<open>max_alloc\<close>, the size in bytes of the largest block it grants, is a
  parameter.
\<close>

definition np_zeros :: "int \<Rightarrow> int \<Rightarrow> error + ('a::zero) array2" where
  "np_zeros max_alloc n =
     (if n < 0 then Inl ValueError
      else if 2 ^ 63 \<le> 8 * n * n then Inl ValueError
      else if max_alloc < 8 * n * n then Inl MemoryError
      else Inr (\<lambda>c. 0))"

section \<open>class Ant\<close>

record Ant =
  ant_x :: int
  ant_y :: int
  direction :: int
  pheromone :: int

text \<open>Lines 36 to 42 of \<open>Ant.move\<close>: the probability of moving straight.\<close>

definition move_straight_prob :: "int \<Rightarrow> int \<Rightarrow> rat \<Rightarrow> rat" where
  "move_straight_prob self_pheromone current_pheromone pheromone_strength =
     (if current_pheromone = self_pheromone
        then float_mul (float_lit (8 / 10)) pheromone_strength
      else if current_pheromone \<noteq> 0
        then float_mul (float_lit (2 / 10)) pheromone_strength
      else float_lit (5 / 10))"

text \<open>
  Lines 44 to 47: \<open>r\<close> is the value \<open>random.random()\<close> returns, \<open>prob\<close> the
  probability of moving straight.
\<close>

definition new_direction :: "rat \<Rightarrow> rat \<Rightarrow> int \<Rightarrow> int \<Rightarrow> int" where
  "new_direction r prob self_direction current_color =
     (if r < prob then self_direction
      else (self_direction + (if current_color = 0 then 1 else - 1)) mod 4)"

text \<open>
  \<open>Ant.move\<close>; \<open>r\<close> is the value \<open>random.random()\<close> returns in this call. The arrays
  are indexed \<open>[self.y, self.x]\<close>. The result is the moved ant and the three arrays.
\<close>

definition move ::
  "int \<Rightarrow> rat \<Rightarrow> Ant \<Rightarrow> int array2 \<Rightarrow> int array2 \<Rightarrow> rat array2
     \<Rightarrow> error + (Ant \<times> int array2 \<times> int array2 \<times> rat array2)" where
  "move GRID_SIZE r self grid pheromones pheromone_strengths =
     (case check_index GRID_SIZE (ant_y self) of
        Inl e \<Rightarrow> Inl e
      | Inr i \<Rightarrow>
     (case check_index GRID_SIZE (ant_x self) of
        Inl e \<Rightarrow> Inl e
      | Inr j \<Rightarrow>
     (let current_color = grid (i, j);
          current_pheromone = pheromones (i, j);
          pheromone_strength = pheromone_strengths (i, j);
          prob = move_straight_prob (pheromone self) current_pheromone pheromone_strength;
          new_dir = new_direction r prob (direction self) current_color
      in if \<not> fits_int64 (pheromone self) then Inl OverflowError
         else
          (case list_getitem DIRECTIONS new_dir of
             Inl e \<Rightarrow> Inl e
           | Inr d \<Rightarrow>
               if GRID_SIZE = 0 then Inl ZeroDivisionError
               else Inr (self\<lparr>direction := new_dir,
                              ant_x := (ant_x self + fst d) mod GRID_SIZE,
                              ant_y := (ant_y self + snd d) mod GRID_SIZE\<rparr>,
                         grid((i, j) := current_color XOR 1),
                         pheromones((i, j) := pheromone self),
                         pheromone_strengths((i, j) := 1))))))"

section \<open>class LangtonsAntSimulation\<close>

record sim =
  grid :: "int array2"
  pheromones :: "int array2"
  pheromone_strengths :: "rat array2"
  ants :: "Ant list"
  steps :: int

text \<open>
  \<open>__init__\<close> without the window: \<open>d1\<close> and \<open>d2\<close> are the two values of
  \<open>random.randint(0, 3)\<close>, \<open>max_alloc\<close> the largest block the allocator grants. The
  three arrays are allocated one after the other; the first allocation that fails ends
  the constructor with its exception. (The temporaries of \<open>decay_pheromones\<close>, a
  boolean mask, the selected strengths and the clipped copy, are each no larger than
  one of these arrays, so an allocator that granted the arrays grants them too.)
\<close>

definition LangtonsAntSimulation_init :: "int \<Rightarrow> int \<Rightarrow> int \<Rightarrow> int \<Rightarrow> error + sim" where
  "LangtonsAntSimulation_init max_alloc GRID_SIZE d1 d2 =
     (case np_zeros max_alloc GRID_SIZE of
        Inl e \<Rightarrow> Inl e
      | Inr grid0 \<Rightarrow>
     (case np_zeros max_alloc GRID_SIZE of
        Inl e \<Rightarrow> Inl e
      | Inr pheromones0 \<Rightarrow>
     (case np_zeros max_alloc GRID_SIZE of
        Inl e \<Rightarrow> Inl e
      | Inr strengths0 \<Rightarrow>
          Inr \<lparr>grid = grid0, pheromones = pheromones0, pheromone_strengths = strengths0,
               ants = [\<lparr>ant_x = GRID_SIZE div 2, ant_y = GRID_SIZE div 2,
                          direction = d1, pheromone = 1\<rparr>,
                       \<lparr>ant_x = GRID_SIZE div 2 + 10, ant_y = GRID_SIZE div 2 + 10,
                          direction = d2, pheromone = 2\<rparr>],
               steps = 0\<rparr>)))"

text \<open>\<open>decay_pheromones\<close>: masked subtraction, clip, then clearing of owners.\<close>

definition decay_pheromones :: "sim \<Rightarrow> sim" where
  "decay_pheromones s =
     (let subtracted = (\<lambda>c. if 0 < pheromone_strengths s c
                             then float_sub (pheromone_strengths s c) DECAY_RATE
                             else pheromone_strengths s c);
          clipped = (\<lambda>c. np_clip (subtracted c) 0 1)
      in s\<lparr>pheromone_strengths := clipped,
            pheromones := (\<lambda>c. if clipped c = 0 then 0 else pheromones s c)\<rparr>)"

text \<open>
  One pass of \<open>for ant in self.ants: ant.move(...)\<close>. The ants are mutable objects held
  in a list: \<open>move_nth\<close> moves the ant at index \<open>k\<close> in place, \<open>move_indices\<close> runs the
  loop over the indices in order, stopping at the first exception. \<open>rnd k\<close> is the draw
  of \<open>random.random()\<close> in the move of ant \<open>k\<close>.
\<close>

definition move_nth :: "int \<Rightarrow> rat \<Rightarrow> nat \<Rightarrow> sim \<Rightarrow> error + sim" where
  "move_nth GRID_SIZE r k s =
     (if length (ants s) \<le> k then Inl IndexError
      else
       (case move GRID_SIZE r (ants s ! k) (grid s) (pheromones s) (pheromone_strengths s) of
          Inl e \<Rightarrow> Inl e
        | Inr (a, g, p, ps) \<Rightarrow>
            Inr (s\<lparr>grid := g, pheromones := p, pheromone_strengths := ps,
                   ants := (ants s)[k := a]\<rparr>)))"

primrec move_indices :: "int \<Rightarrow> (nat \<Rightarrow> rat) \<Rightarrow> nat list \<Rightarrow> sim \<Rightarrow> error + sim" where
  "move_indices GRID_SIZE rnd [] s = Inr s"
| "move_indices GRID_SIZE rnd (k # ks) s =
     (case move_nth GRID_SIZE (rnd k) k s of
        Inl e \<Rightarrow> Inl e
      | Inr s' \<Rightarrow> move_indices GRID_SIZE rnd ks s')"

text \<open>
  The simulation part of one iteration of the loop in \<open>run\<close> (lines 108 to 115): all
  ants move, the pheromones decay, the step counter goes up.
\<close>

definition run_step :: "int \<Rightarrow> (nat \<Rightarrow> rat) \<Rightarrow> sim \<Rightarrow> error + sim" where
  "run_step GRID_SIZE rnd s =
     (case move_indices GRID_SIZE rnd [0..<length (ants s)] s of
        Inl e \<Rightarrow> Inl e
      | Inr s' \<Rightarrow> Inr ((decay_pheromones s')\<lparr>steps := steps s' + 1\<rparr>))"

text \<open>\<open>n\<close> iterations; \<open>rnds t\<close> supplies the draws of iteration \<open>t\<close>.\<close>

primrec run_steps :: "int \<Rightarrow> (nat \<Rightarrow> nat \<Rightarrow> rat) \<Rightarrow> nat \<Rightarrow> sim \<Rightarrow> error + sim" where
  "run_steps GRID_SIZE rnds 0 s = Inr s"
| "run_steps GRID_SIZE rnds (Suc n) s =
     (case run_steps GRID_SIZE rnds n s of
        Inl e \<Rightarrow> Inl e
      | Inr s' \<Rightarrow> run_step GRID_SIZE (rnds n) s')"

section \<open>Concrete states and derived notions used in the statements\<close>

text \<open>The cell an ant stands on, as the arrays are indexed: (row, column).\<close>

definition cell_of :: "int \<Rightarrow> Ant \<Rightarrow> int \<times> int" where
  "cell_of GRID_SIZE a = (wrap_index GRID_SIZE (ant_y a), wrap_index GRID_SIZE (ant_x a))"

text \<open>A random source that returns the same draw every time.\<close>

definition const_draws :: "rat \<Rightarrow> nat \<Rightarrow> rat" where
  "const_draws r k = r"

text \<open>
  The scenario of the specification: side 10, one ant at \<open>(5, 5)\<close> facing up with
  pheromone id 1, every cell white and unscented.
\<close>

definition scenario :: sim where
  "scenario = \<lparr>grid = (\<lambda>c. 0), pheromones = (\<lambda>c. 0), pheromone_strengths = (\<lambda>c. 0),
               ants = [\<lparr>ant_x = 5, ant_y = 5, direction = 0, pheromone = 1\<rparr>],
               steps = 0\<rparr>"

definition scenario_after1 :: sim where
  "scenario_after1 = projr (run_step 10 (const_draws (float_lit (9 / 10))) scenario)"

text \<open>
  The scenario grid with the ant's deposit on cell \<open>(5, 5)\<close>: owner 1 at full strength.
\<close>

definition deposited :: sim where
  "deposited = scenario\<lparr>pheromones := (pheromones scenario)((5, 5) := 1),
                        pheromone_strengths := (pheromone_strengths scenario)((5, 5) := 1)\<rparr>"

text \<open>A machine whose allocator grants blocks of up to 16 GiB.\<close>

definition machine_bytes :: int where
  "machine_bytes = 2 ^ 34"

text \<open>The source's own start: side 1000, both ants facing up.\<close>

definition source_start :: sim where
  "source_start = projr (LangtonsAntSimulation_init machine_bytes 1000 0 0)"

text \<open>
  An ant that \<open>move\<close> accepts without wrapping an index: on the grid, facing one of
  the four directions, with an id that fits the owner array.
\<close>

definition valid_ant :: "int \<Rightarrow> Ant \<Rightarrow> bool" where
  "valid_ant GRID_SIZE a =
     (0 \<le> ant_x a \<and> ant_x a < GRID_SIZE \<and> 0 \<le> ant_y a \<and> ant_y a < GRID_SIZE \<and>
      0 \<le> direction a \<and> direction a < 4 \<and> fits_int64 (pheromone a))"

definition valid_state :: "int \<Rightarrow> sim \<Rightarrow> bool" where
  "valid_state GRID_SIZE s = list_all (valid_ant GRID_SIZE) (ants s)"

text \<open>The scenario after the ant's move, before the decay.\<close>

definition scenario_moved :: sim where
  "scenario_moved = projr (move_nth 10 (float_lit (9 / 10)) 0 scenario)"

text \<open>The same draw for every ant in every iteration.\<close>

definition steady_draws :: "rat \<Rightarrow> nat \<Rightarrow> nat \<Rightarrow> rat" where
  "steady_draws r t k = r"

text \<open>The source's start after one iteration.\<close>

definition source_after1 :: sim where
  "source_after1 = projr (run_steps 1000 (steady_draws (float_lit (9 / 10))) 1 source_start)"

text \<open>The source's start after the move of its first ant.\<close>

definition source_moved :: sim where
  "source_moved = projr (move_nth 1000 (float_lit (9 / 10)) 0 source_start)"


section \<open>Properties of the rounding\<close>

declare expo_up.simps [simp del] expo_down.simps [simp del]

lemma expo_down_range: "e - int n \<le> expo_down n e x \<and> expo_down n e x \<le> e"
proof (induction n e x rule: expo_down.induct)
  case (1 n e x)
  show ?case
  proof (cases "n = 0 \<or> 2 powi e \<le> x")
    case True
    then show ?thesis by (subst expo_down.simps, subst expo_down.simps) auto
  next
    case False
    then have eq: "expo_down n e x = expo_down (n - 1) (e - 1) x"
      by (subst expo_down.simps) simp
    from False have "0 < n" by simp
    with 1 [OF False] eq show ?thesis by auto
  qed
qed

lemma expo_down_upper: "x < 2 powi (e + 1) \<Longrightarrow> x < 2 powi (expo_down n e x + 1)"
proof (induction n e x rule: expo_down.induct)
  case (1 n e x)
  show ?case
  proof (cases "n = 0 \<or> 2 powi e \<le> x")
    case True
    then have "expo_down n e x = e" by (subst expo_down.simps) simp
    with 1 show ?thesis by simp
  next
    case False
    then have eq: "expo_down n e x = expo_down (n - 1) (e - 1) x"
      by (subst expo_down.simps) simp
    from False have "x < 2 powi (e - 1 + 1)" by simp
    with 1(1) [OF False] eq show ?thesis by simp
  qed
qed

lemma expo_down_lower: "expo_down n e x = e - int n \<or> 2 powi (expo_down n e x) \<le> x"
proof (induction n e x rule: expo_down.induct)
  case (1 n e x)
  show ?case
  proof (cases "n = 0 \<or> 2 powi e \<le> x")
    case True
    then have "expo_down n e x = e" by (subst expo_down.simps) simp
    with True show ?thesis by auto
  next
    case False
    then have eq: "expo_down n e x = expo_down (n - 1) (e - 1) x"
      by (subst expo_down.simps) simp
    from False have "0 < n" by simp
    with 1 [OF False] eq show ?thesis by auto
  qed
qed

lemma expo_up_range: "e \<le> expo_up n e x \<and> expo_up n e x \<le> e + int n"
proof (induction n e x rule: expo_up.induct)
  case (1 n e x)
  show ?case
  proof (cases "n = 0 \<or> x < 2 powi (e + 1)")
    case True
    then have "expo_up n e x = e" by (subst expo_up.simps) simp
    then show ?thesis by simp
  next
    case False
    then have eq: "expo_up n e x = expo_up (n - 1) (e + 1) x"
      by (subst expo_up.simps) simp
    from False have "0 < n" by simp
    with 1 [OF False] eq show ?thesis by auto
  qed
qed

lemma expo_up_lower: "2 powi e \<le> x \<Longrightarrow> 2 powi (expo_up n e x) \<le> x"
proof (induction n e x rule: expo_up.induct)
  case (1 n e x)
  show ?case
  proof (cases "n = 0 \<or> x < 2 powi (e + 1)")
    case True
    then have "expo_up n e x = e" by (subst expo_up.simps) simp
    with 1 show ?thesis by simp
  next
    case False
    then have eq: "expo_up n e x = expo_up (n - 1) (e + 1) x"
      by (subst expo_up.simps) simp
    from False have "2 powi (e + 1) \<le> x" by simp
    with 1(1) [OF False] eq show ?thesis by simp
  qed
qed

lemma expo_up_upper: "expo_up n e x = e + int n \<or> x < 2 powi (expo_up n e x + 1)"
proof (induction n e x rule: expo_up.induct)
  case (1 n e x)
  show ?case
  proof (cases "n = 0 \<or> x < 2 powi (e + 1)")
    case True
    then have "expo_up n e x = e" by (subst expo_up.simps) simp
    with True show ?thesis by auto
  next
    case False
    then have eq: "expo_up n e x = expo_up (n - 1) (e + 1) x"
      by (subst expo_up.simps) simp
    from False have "0 < n" by simp
    with 1 [OF False] eq show ?thesis by auto
  qed
qed

lemma expo_range: "- 1022 \<le> expo x \<and> expo x \<le> 1023"
  using expo_down_range [of "- 1" 1021 "\<bar>x\<bar>"] expo_up_range [of 0 1023 "\<bar>x\<bar>"]
  by (simp add: expo_def)

lemma expo_lower: "expo x = - 1022 \<or> 2 powi (expo x) \<le> \<bar>x\<bar>"
  using expo_down_lower [of 1021 "- 1" "\<bar>x\<bar>"] expo_up_lower [of 0 "\<bar>x\<bar>" 1023]
  by (auto simp: expo_def)

lemma expo_upper: "expo x = 1023 \<or> \<bar>x\<bar> < 2 powi (expo x + 1)"
  using expo_down_upper [of "\<bar>x\<bar>" "- 1" 1021] expo_up_upper [of 1023 0 "\<bar>x\<bar>"]
  by (auto simp: expo_def)

lemma powi2_less_cancel: "(2::rat) powi a < 2 powi b \<Longrightarrow> a < b"
  by (metis linorder_not_less one_le_numeral power_int_increasing)

lemma expo_eqI:
  assumes "2 powi e \<le> \<bar>x\<bar>" "\<bar>x\<bar> < 2 powi (e + 1)" "- 1022 \<le> e" "e \<le> 1023"
  shows "expo x = e"
proof -
  have up: "\<bar>x\<bar> < 2 powi (expo x + 1)"
  proof (rule disjE [OF expo_upper [of x]])
    assume "expo x = 1023"
    moreover have "(2::rat) powi (e + 1) \<le> 2 powi (1023 + 1)"
      using assms(4) by (intro power_int_increasing) auto
    ultimately show ?thesis using assms(2) by simp
  qed
  have lo: "2 powi (expo x) \<le> \<bar>x\<bar>"
  proof (rule disjE [OF expo_lower [of x]])
    assume "expo x = - 1022"
    moreover have "(2::rat) powi (- 1022) \<le> 2 powi e"
      using assms(3) by (intro power_int_increasing) auto
    ultimately show ?thesis using assms(1) by simp
  qed
  have "(2::rat) powi e < 2 powi (expo x + 1)" using assms(1) up by simp
  then have "e < expo x + 1" by (rule powi2_less_cancel)
  moreover have "(2::rat) powi (expo x) < 2 powi (e + 1)" using assms(2) lo by simp
  then have "expo x < e + 1" by (rule powi2_less_cancel)
  ultimately show ?thesis by simp
qed

lemma round64_eqI:
  assumes "2 powi e \<le> \<bar>x\<bar>" "\<bar>x\<bar> < 2 powi (e + 1)" "- 1022 \<le> e" "e \<le> 1023"
  shows "round64 x = of_int (rne (x / 2 powi (e - 52))) * 2 powi (e - 52)"
  using expo_eqI [OF assms] by (simp add: round64_def Let_def)

lemma floor_rat_numeral [simp]:
  "\<lfloor>numeral a / numeral b :: rat\<rfloor> = numeral a div numeral b"
  using floor_divide_of_int_eq [of "numeral a" "numeral b", where ?'a = rat] by simp

lemma floor_rat_neg_numeral [simp]:
  "\<lfloor>- (numeral a / numeral b) :: rat\<rfloor> = - numeral a div numeral b"
  using floor_divide_of_int_eq [of "- numeral a" "numeral b", where ?'a = rat] by simp

lemma round64_0 [simp]: "round64 0 = 0"
  by (simp add: round64_def rne_def)

lemma rne_bounds: "\<lfloor>y\<rfloor> \<le> rne y \<and> rne y \<le> \<lfloor>y\<rfloor> + 1"
  by (simp add: rne_def Let_def)

lemma rne_of_int [simp]: "rne (of_int k) = k"
  by (simp add: rne_def)

lemma rne_mono:
  assumes "y \<le> z"
  shows "rne y \<le> rne z"
proof (cases "\<lfloor>y\<rfloor> < \<lfloor>z\<rfloor>")
  case True
  then show ?thesis using rne_bounds [of y] rne_bounds [of z] by linarith
next
  case False
  with assms have eq: "\<lfloor>y\<rfloor> = \<lfloor>z\<rfloor>" using floor_mono [of y z] by simp
  then have "y - of_int \<lfloor>y\<rfloor> \<le> z - of_int \<lfloor>z\<rfloor>" using assms by simp
  with eq show ?thesis by (auto simp: rne_def Let_def)
qed

lemma rne_minus: "rne (- y) = - rne y"
proof (cases "y = of_int \<lfloor>y\<rfloor>")
  case True
  then obtain k where "y = of_int k" ..
  then have "- y = of_int (- k)" by simp
  then show ?thesis unfolding \<open>y = of_int k\<close> by (metis rne_of_int of_int_minus)
next
  case False
  then have fl: "\<lfloor>- y\<rfloor> = - \<lfloor>y\<rfloor> - 1"
    by (simp add: floor_minus ceiling_altdef)
  have "even (- \<lfloor>y\<rfloor> - 1) \<longleftrightarrow> odd \<lfloor>y\<rfloor>" by simp
  with fl show ?thesis
    by (auto simp: rne_def Let_def)
qed

lemma expo_minus [simp]: "expo (- x) = expo x"
  by (simp add: expo_def)

lemma round64_minus: "round64 (- x) = - round64 x"
  by (simp add: round64_def Let_def rne_minus)

lemma round64_nonneg: "0 \<le> x \<Longrightarrow> 0 \<le> round64 x"
proof -
  assume "0 \<le> x"
  then have "0 \<le> x / 2 powi (expo x - 52)" by simp
  then have "0 \<le> \<lfloor>x / 2 powi (expo x - 52)\<rfloor>" by simp
  then have "0 \<le> rne (x / 2 powi (expo x - 52))"
    using rne_bounds [of "x / 2 powi (expo x - 52)"] by linarith
  then show ?thesis by (simp add: round64_def Let_def)
qed

lemma expo_mono:
  assumes "\<bar>x\<bar> \<le> \<bar>y\<bar>"
  shows "expo x \<le> expo y"
proof (rule ccontr)
  assume "\<not> expo x \<le> expo y"
  then have lt: "expo y < expo x" by simp
  with expo_range [of y] have "expo x \<noteq> - 1022" by simp
  with expo_lower [of x] have lo: "2 powi (expo x) \<le> \<bar>x\<bar>" by simp
  from lt expo_range [of x] have "expo y \<noteq> 1023" by simp
  with expo_upper [of y] have "\<bar>y\<bar> < 2 powi (expo y + 1)" by simp
  also have "(2::rat) powi (expo y + 1) \<le> 2 powi (expo x)"
    using lt by (intro power_int_increasing) auto
  finally show False using lo assms by simp
qed

lemma powi2_split: "(2::rat) powi (e + 1) = 2 ^ 53 * 2 powi (e - 52)"
proof -
  have "e + 1 = 53 + (e - 52)" by simp
  then have "(2::rat) powi (e + 1) = 2 powi (53 + (e - 52))" by (rule arg_cong)
  also have "\<dots> = 2 powi 53 * 2 powi (e - 52)" by (rule power_int_add) simp
  finally show ?thesis by simp
qed

lemma powi2_split': "(2::rat) powi e = 2 ^ 52 * 2 powi (e - 52)"
proof -
  have "e = 52 + (e - 52)" by simp
  then have "(2::rat) powi e = 2 powi (52 + (e - 52))" by (rule arg_cong)
  also have "\<dots> = 2 powi 52 * 2 powi (e - 52)" by (rule power_int_add) simp
  finally show ?thesis by simp
qed

lemma round64_le_binade:
  assumes "\<bar>x\<bar> < 2 powi (expo x + 1)" "0 \<le> x"
  shows "round64 x \<le> 2 powi (expo x + 1)"
proof -
  let ?q = "(2::rat) powi (expo x - 52)"
  have q: "0 < ?q" by simp
  have "x < 2 ^ 53 * ?q" using assms by (simp add: powi2_split)
  then have "x / ?q \<le> of_int (2 ^ 53)" using q by (simp add: field_simps)
  then have "rne (x / ?q) \<le> 2 ^ 53" using rne_mono rne_of_int by metis
  then have "(of_int (rne (x / ?q)) :: rat) \<le> of_int (2 ^ 53)" by (simp only: of_int_le_iff)
  then have "of_int (rne (x / ?q)) * ?q \<le> 2 ^ 53 * ?q" using q by simp
  then show ?thesis by (simp add: round64_def Let_def powi2_split)
qed

lemma round64_ge_binade:
  assumes "2 powi (expo x) \<le> \<bar>x\<bar>" "0 \<le> x"
  shows "2 powi (expo x) \<le> round64 x"
proof -
  let ?q = "(2::rat) powi (expo x - 52)"
  have q: "0 < ?q" by simp
  have "2 ^ 52 * ?q \<le> x" using assms powi2_split' [of "expo x"] by simp
  then have "of_int (2 ^ 52) \<le> x / ?q" using q by (simp add: field_simps)
  then have "2 ^ 52 \<le> rne (x / ?q)" using rne_mono rne_of_int by metis
  then have "(of_int (2 ^ 52) :: rat) \<le> of_int (rne (x / ?q))" by (simp only: of_int_le_iff)
  then have "2 ^ 52 * ?q \<le> of_int (rne (x / ?q)) * ?q" using q by simp
  then show ?thesis using powi2_split' [of "expo x"] by (simp add: round64_def Let_def)
qed

lemma round64_mono_nonneg:
  assumes "0 \<le> x" "x \<le> y"
  shows "round64 x \<le> round64 y"
proof -
  have le: "expo x \<le> expo y" using assms by (intro expo_mono) simp
  show ?thesis
  proof (cases "expo x = expo y")
    case True
    let ?q = "(2::rat) powi (expo y - 52)"
    have q: "0 < ?q" by simp
    have "x / ?q \<le> y / ?q" using assms q by (simp add: divide_right_mono)
    then have "rne (x / ?q) \<le> rne (y / ?q)" by (rule rne_mono)
    then have "(of_int (rne (x / ?q)) :: rat) \<le> of_int (rne (y / ?q))" by simp
    then have "of_int (rne (x / ?q)) * ?q \<le> of_int (rne (y / ?q)) * ?q" using q by simp
    then show ?thesis using True by (simp add: round64_def Let_def)
  next
    case False
    with le have lt: "expo x < expo y" by simp
    with expo_range [of y] have "expo x \<noteq> 1023" by simp
    with expo_upper [of x] have "\<bar>x\<bar> < 2 powi (expo x + 1)" by simp
    then have a: "round64 x \<le> 2 powi (expo x + 1)" using assms(1) by (rule round64_le_binade)
    from lt expo_range [of x] have "expo y \<noteq> - 1022" by simp
    with expo_lower [of y] have "2 powi (expo y) \<le> \<bar>y\<bar>" by simp
    moreover have "0 \<le> y" using assms by simp
    ultimately have b: "2 powi (expo y) \<le> round64 y" by (rule round64_ge_binade)
    have "(2::rat) powi (expo x + 1) \<le> 2 powi (expo y)"
      using lt by (intro power_int_increasing) auto
    with a b show ?thesis by linarith
  qed
qed

lemma round64_mono:
  assumes "x \<le> y"
  shows "round64 x \<le> round64 y"
proof (cases "0 \<le> x")
  case True
  then show ?thesis using assms by (rule round64_mono_nonneg)
next
  case False
  then have x: "x < 0" by simp
  show ?thesis
  proof (cases "0 \<le> y")
    case True
    have "0 \<le> round64 (- x)" using x by (intro round64_nonneg) simp
    then have "round64 x \<le> 0" by (simp add: round64_minus)
    also have "0 \<le> round64 y" using True by (rule round64_nonneg)
    finally show ?thesis .
  next
    case False
    then have "0 \<le> - y" "- y \<le> - x" using assms by simp_all
    then have "round64 (- y) \<le> round64 (- x)" by (rule round64_mono_nonneg)
    then show ?thesis by (simp add: round64_minus)
  qed
qed

section \<open>The binary64 values the program computes\<close>

lemma DECAY_RATE_value: "DECAY_RATE = 3602879701896397 / 18014398509481984"
  unfolding DECAY_RATE_def PHEROMONE_DECAY_STEPS_def int_truediv_def
  by (subst round64_eqI [where e = "- 3"]) (simp_all add: rne_def Let_def)

lemma float_lit_0_8: "float_lit (4 / 5) = 3602879701896397 / 4503599627370496"
  unfolding float_lit_def
  by (subst round64_eqI [where e = "- 1"]) (simp_all add: rne_def Let_def)

lemma float_lit_0_2: "float_lit (1 / 5) = 3602879701896397 / 18014398509481984"
  unfolding float_lit_def
  by (subst round64_eqI [where e = "- 3"]) (simp_all add: rne_def Let_def)

lemma float_lit_0_5: "float_lit (1 / 2) = 1 / 2"
  unfolding float_lit_def
  by (subst round64_eqI [where e = "- 1"]) (simp_all add: rne_def Let_def)

lemma float_lit_0_9: "float_lit (9 / 10) = 8106479329266893 / 9007199254740992"
  unfolding float_lit_def
  by (subst round64_eqI [where e = "- 1"]) (simp_all add: rne_def Let_def)

lemma decay_val_1: "float_sub 1 DECAY_RATE = 3602879701896397 / 4503599627370496"
  unfolding float_sub_def DECAY_RATE_value
  by (subst round64_eqI [where e = "- 1"]) (simp_all add: rne_def Let_def)

lemma decay_val_2:
  "float_sub (3602879701896397 / 4503599627370496) DECAY_RATE = 1351079888211149 / 2251799813685248"
  unfolding float_sub_def DECAY_RATE_value
  by (subst round64_eqI [where e = "- 1"]) (simp_all add: rne_def Let_def)

lemma decay_val_3:
  "float_sub (1351079888211149 / 2251799813685248) DECAY_RATE = 7205759403792795 / 18014398509481984"
  unfolding float_sub_def DECAY_RATE_value
  by (subst round64_eqI [where e = "- 2"]) (simp_all add: rne_def Let_def)

lemma decay_val_4:
  "float_sub (7205759403792795 / 18014398509481984) DECAY_RATE = 1801439850948199 / 9007199254740992"
  unfolding float_sub_def DECAY_RATE_value
  by (subst round64_eqI [where e = "- 3"]) (simp_all add: rne_def Let_def)

lemma decay_val_5:
  "float_sub (1801439850948199 / 9007199254740992) DECAY_RATE = 1 / 18014398509481984"
  unfolding float_sub_def DECAY_RATE_value
  by (subst round64_eqI [where e = "- 54"]) (simp_all add: rne_def Let_def)

lemma decay_val_6: "float_sub (1 / 18014398509481984) DECAY_RATE < 0"
  unfolding float_sub_def DECAY_RATE_value
  by (subst round64_eqI [where e = "- 3"]) (simp_all add: rne_def Let_def)

section \<open>Decay\<close>

lemma float_mul_0 [simp]: "float_mul a 0 = 0"
  by (simp add: float_mul_def)

lemma decay_strength:
  "pheromone_strengths (decay_pheromones s) c =
     np_clip (if 0 < pheromone_strengths s c
              then float_sub (pheromone_strengths s c) DECAY_RATE
              else pheromone_strengths s c) 0 1"
  by (simp add: decay_pheromones_def Let_def)

lemma decay_owner:
  "pheromones (decay_pheromones s) c =
     (if pheromone_strengths (decay_pheromones s) c = 0 then 0 else pheromones s c)"
  by (simp add: decay_pheromones_def Let_def)

lemma decay_strength_range:
  "0 \<le> pheromone_strengths (decay_pheromones s) c \<and>
   pheromone_strengths (decay_pheromones s) c \<le> 1"
  by (simp add: decay_strength np_clip_def)

lemma decay_from_full:
  assumes "pheromone_strengths s c = 1"
  shows "pheromone_strengths ((decay_pheromones ^^ 5) s) c = 1 / 2 ^ 54"
    and "pheromones ((decay_pheromones ^^ 5) s) c = pheromones s c"
    and "pheromone_strengths ((decay_pheromones ^^ 6) s) c = 0"
    and "pheromones ((decay_pheromones ^^ 6) s) c = 0"
proof -
  let ?d = decay_pheromones
  have s1: "pheromone_strengths (?d s) c = 3602879701896397 / 4503599627370496"
    using assms by (simp add: decay_strength decay_val_1 np_clip_def)
  have s2: "pheromone_strengths (?d (?d s)) c = 1351079888211149 / 2251799813685248"
    by (simp add: decay_strength [of "?d s"] s1 decay_val_2 np_clip_def)
  have s3: "pheromone_strengths (?d (?d (?d s))) c = 7205759403792795 / 18014398509481984"
    by (simp add: decay_strength [of "?d (?d s)"] s2 decay_val_3 np_clip_def)
  have s4: "pheromone_strengths (?d (?d (?d (?d s)))) c = 1801439850948199 / 9007199254740992"
    by (simp add: decay_strength [of "?d (?d (?d s))"] s3 decay_val_4 np_clip_def)
  have s5: "pheromone_strengths (?d (?d (?d (?d (?d s))))) c = 1 / 18014398509481984"
    by (simp add: decay_strength [of "?d (?d (?d (?d s)))"] s4 decay_val_5 np_clip_def)
  have s6: "pheromone_strengths (?d (?d (?d (?d (?d (?d s)))))) c = 0"
    using decay_val_6
    by (simp add: decay_strength [of "?d (?d (?d (?d (?d s))))"] s5 np_clip_def max_def)
  have o1: "pheromones (?d s) c = pheromones s c"
    by (simp add: decay_owner [of s] s1)
  have o2: "pheromones (?d (?d s)) c = pheromones s c"
    by (simp add: decay_owner [of "?d s"] s2 o1)
  have o3: "pheromones (?d (?d (?d s))) c = pheromones s c"
    by (simp add: decay_owner [of "?d (?d s)"] s3 o2)
  have o4: "pheromones (?d (?d (?d (?d s)))) c = pheromones s c"
    by (simp add: decay_owner [of "?d (?d (?d s))"] s4 o3)
  have o5: "pheromones (?d (?d (?d (?d (?d s))))) c = pheromones s c"
    by (simp add: decay_owner [of "?d (?d (?d (?d s)))"] s5 o4)
  have n5: "(?d ^^ 5) s = ?d (?d (?d (?d (?d s))))"
    by (simp add: eval_nat_numeral)
  have n6: "(?d ^^ 6) s = ?d (?d (?d (?d (?d (?d s)))))"
    by (simp add: eval_nat_numeral)
  show "pheromone_strengths ((?d ^^ 5) s) c = 1 / 2 ^ 54" by (simp only: n5 s5) simp
  show "pheromones ((?d ^^ 5) s) c = pheromones s c" by (simp only: n5 o5)
  show "pheromone_strengths ((?d ^^ 6) s) c = 0" by (simp only: n6 s6)
  show "pheromones ((?d ^^ 6) s) c = 0"
    unfolding n6 using s6 decay_owner [of "?d (?d (?d (?d (?d s))))" c] by simp
qed

text \<open>
  C3, the part that fails: a cell at full strength \<open>1.0\<close> does not hold strength
  exactly 0 after five calls of \<open>decay_pheromones\<close>. The binary64 value of \<open>1 / 5\<close>
  lies above one fifth, the subtractions round, and the fifth call leaves
  \<open>1 / 2 ^ 54\<close> with the owner still in place; only the sixth call reaches 0 and
  clears the owner. (That every strength stays in \<open>[0, 1]\<close> is
  \<open>decay_strength_range\<close>.)
\<close>

theorem decay_five_calls_residue:
  "pheromone_strengths deposited (5, 5) = 1 \<and>
   pheromone_strengths ((decay_pheromones ^^ 5) deposited) (5, 5) = 1 / 2 ^ 54 \<and>
   pheromone_strengths ((decay_pheromones ^^ 5) deposited) (5, 5) \<noteq> 0 \<and>
   pheromones ((decay_pheromones ^^ 5) deposited) (5, 5) = 1 \<and>
   pheromone_strengths ((decay_pheromones ^^ 6) deposited) (5, 5) = 0"
proof -
  have full: "pheromone_strengths deposited (5, 5) = 1"
    by (simp add: deposited_def)
  have own: "pheromones deposited (5, 5) = 1"
    by (simp add: deposited_def)
  show ?thesis
    using full own decay_from_full [OF full] by simp
qed

section \<open>Ant.move\<close>

lemma check_index_Inr: "check_index n i = Inr j \<longleftrightarrow> - n \<le> i \<and> i < n \<and> j = wrap_index n i"
  by (auto simp: check_index_def)

lemma check_index_Inl: "check_index n i = Inl e \<longleftrightarrow> \<not> (- n \<le> i \<and> i < n) \<and> e = IndexError"
  by (auto simp: check_index_def)

text \<open>What a successful \<open>move\<close> did.\<close>

lemma move_InrD:
  assumes "move N r a g p ps = Inr (a', g', p', ps')"
  defines "c \<equiv> cell_of N a"
  defines "nd \<equiv> new_direction r (move_straight_prob (pheromone a) (p c) (ps c))
                  (direction a) (g c)"
  shows "0 < N" and "- N \<le> ant_x a" and "ant_x a < N" and "- N \<le> ant_y a" and "ant_y a < N"
    and "fits_int64 (pheromone a)" and "- 4 \<le> nd" and "nd < 4"
    and "a' = a\<lparr>direction := nd,
                 ant_x := (ant_x a + fst (DIRECTIONS ! nat (wrap_index 4 nd))) mod N,
                 ant_y := (ant_y a + snd (DIRECTIONS ! nat (wrap_index 4 nd))) mod N\<rparr>"
    and "g' = g(c := g c XOR 1)" and "p' = p(c := pheromone a)" and "ps' = ps(c := 1)"
  using assms(1) unfolding c_def nd_def move_def cell_of_def list_getitem_def Let_def
  by (auto simp: check_index_Inr DIRECTIONS_def split: sum.splits if_splits)

lemma wrap_index_id: "0 \<le> i \<Longrightarrow> wrap_index n i = i"
  by (simp add: wrap_index_def)

lemma DIRECTIONS_unit:
  assumes "0 \<le> d" "d < 4"
  shows "DIRECTIONS ! nat d \<in> {(0, - 1), (1, 0), (0, 1), (- 1, 0)}"
proof -
  from assms have "d = 0 \<or> d = 1 \<or> d = 2 \<or> d = 3" by auto
  then show ?thesis by (auto simp: DIRECTIONS_def)
qed

lemma move_total:
  assumes "valid_ant N a"
  shows "\<exists>a' g' p' ps'. move N r a g p ps = Inr (a', g', p', ps') \<and> valid_ant N a'"
proof -
  from assms have N: "0 < N" and x: "0 \<le> ant_x a" "ant_x a < N" and y: "0 \<le> ant_y a" "ant_y a < N"
    and d: "0 \<le> direction a" "direction a < 4" and f: "fits_int64 (pheromone a)"
    by (auto simp: valid_ant_def)
  define c where "c = (ant_y a, ant_x a)"
  define nd where "nd = new_direction r (move_straight_prob (pheromone a) (p c) (ps c))
                  (direction a) (g c)"
  have nd: "0 \<le> nd" "nd < 4" using d by (auto simp: nd_def new_direction_def)
  have cy: "check_index N (ant_y a) = Inr (ant_y a)"
    using y N by (simp add: check_index_def wrap_index_def)
  have cx: "check_index N (ant_x a) = Inr (ant_x a)"
    using x N by (simp add: check_index_def wrap_index_def)
  have gi: "list_getitem DIRECTIONS nd = Inr (DIRECTIONS ! nat nd)"
    using nd by (simp add: list_getitem_def check_index_def wrap_index_def DIRECTIONS_def)
  have "move N r a g p ps =
          Inr (a\<lparr>direction := nd,
                 ant_x := (ant_x a + fst (DIRECTIONS ! nat nd)) mod N,
                 ant_y := (ant_y a + snd (DIRECTIONS ! nat nd)) mod N\<rparr>,
               g(c := g c XOR 1), p(c := pheromone a), ps(c := 1))"
    using N f by (simp add: move_def cy cx Let_def gi flip: nd_def c_def)
  moreover have "valid_ant N (a\<lparr>direction := nd,
                 ant_x := (ant_x a + fst (DIRECTIONS ! nat nd)) mod N,
                 ant_y := (ant_y a + snd (DIRECTIONS ! nat nd)) mod N\<rparr>)"
    using N nd f by (simp add: valid_ant_def)
  ultimately show ?thesis by blast
qed

text \<open>A successful move leaves the ant on the grid.\<close>

lemma move_position:
  assumes "move N r a g p ps = Inr (a', g', p', ps')"
  shows "0 \<le> ant_x a' \<and> ant_x a' < N \<and> 0 \<le> ant_y a' \<and> ant_y a' < N"
  using move_InrD(1) [OF assms] move_InrD(9) [OF assms] by simp

lemma move_nth_InrD:
  assumes "move_nth N r k s = Inr s'"
  shows "k < length (ants s)"
    and "\<exists>a' g' p' ps'. move N r (ants s ! k) (grid s) (pheromones s) (pheromone_strengths s)
            = Inr (a', g', p', ps') \<and>
          s' = s\<lparr>grid := g', pheromones := p', pheromone_strengths := ps',
                 ants := (ants s)[k := a']\<rparr>"
  using assms by (auto simp: move_nth_def split: if_splits sum.splits)

lemma move_nth_length: "move_nth N r k s = Inr s' \<Longrightarrow> length (ants s') = length (ants s)"
  by (auto dest!: move_nth_InrD(2))

lemma move_nth_other: "move_nth N r k s = Inr s' \<Longrightarrow> j \<noteq> k \<Longrightarrow> ants s' ! j = ants s ! j"
  by (auto dest!: move_nth_InrD(2))

lemma move_nth_steps: "move_nth N r k s = Inr s' \<Longrightarrow> steps s' = steps s"
  by (auto dest!: move_nth_InrD(2))

lemma move_nth_cell:
  assumes "move_nth N r k s = Inr s'"
  defines "c \<equiv> cell_of N (ants s ! k)"
  shows "grid s' = (grid s)(c := grid s c XOR 1)"
    and "pheromones s' = (pheromones s)(c := pheromone (ants s ! k))"
    and "pheromone_strengths s' = (pheromone_strengths s)(c := 1)"
proof -
  from move_nth_InrD(2) [OF assms(1)] obtain a' g' p' ps' where
    m: "move N r (ants s ! k) (grid s) (pheromones s) (pheromone_strengths s) = Inr (a', g', p', ps')"
    and s': "s' = s\<lparr>grid := g', pheromones := p', pheromone_strengths := ps',
                 ants := (ants s)[k := a']\<rparr>" by blast
  show "grid s' = (grid s)(c := grid s c XOR 1)"
    using move_InrD(10) [OF m] s' by (simp add: c_def)
  show "pheromones s' = (pheromones s)(c := pheromone (ants s ! k))"
    using move_InrD(11) [OF m] s' by (simp add: c_def)
  show "pheromone_strengths s' = (pheromone_strengths s)(c := 1)"
    using move_InrD(12) [OF m] s' by (simp add: c_def)
qed

lemma move_nth_moved:
  assumes "move_nth N r k s = Inr s'"
  shows "0 \<le> ant_x (ants s' ! k) \<and> ant_x (ants s' ! k) < N \<and>
         0 \<le> ant_y (ants s' ! k) \<and> ant_y (ants s' ! k) < N \<and>
         pheromone (ants s' ! k) = pheromone (ants s ! k)"
proof -
  from move_nth_InrD [OF assms] obtain a' g' p' ps' where k: "k < length (ants s)" and
    m: "move N r (ants s ! k) (grid s) (pheromones s) (pheromone_strengths s) = Inr (a', g', p', ps')"
    and s': "s' = s\<lparr>grid := g', pheromones := p', pheromone_strengths := ps',
                 ants := (ants s)[k := a']\<rparr>" by blast
  have "ants s' ! k = a'" using s' k by simp
  then show ?thesis using move_position [OF m] move_InrD(9) [OF m] by simp
qed

lemma move_nth_total:
  assumes "valid_state N s" "k < length (ants s)"
  shows "\<exists>s'. move_nth N r k s = Inr s' \<and> valid_state N s' \<and> length (ants s') = length (ants s)"
proof -
  have va: "valid_ant N (ants s ! k)"
    using assms by (simp add: valid_state_def list_all_length)
  from move_total [OF va, of r "grid s" "pheromones s" "pheromone_strengths s"]
  obtain a' g' p' ps' where
    m: "move N r (ants s ! k) (grid s) (pheromones s) (pheromone_strengths s) = Inr (a', g', p', ps')"
    and v: "valid_ant N a'" by blast
  let ?s' = "s\<lparr>grid := g', pheromones := p', pheromone_strengths := ps', ants := (ants s)[k := a']\<rparr>"
  have "move_nth N r k s = Inr ?s'" using assms(2) m by (simp add: move_nth_def)
  moreover have "valid_state N ?s'"
    using assms v by (auto simp: valid_state_def list_all_length nth_list_update)
  ultimately show ?thesis by auto
qed

section \<open>The loop over the ants and one iteration\<close>

lemma move_indices_Cons_InrD:
  assumes "move_indices N rnd (k # ks) s = Inr s'"
  obtains s1 where "move_nth N (rnd k) k s = Inr s1" "move_indices N rnd ks s1 = Inr s'"
  using assms by (auto split: sum.splits)

lemma move_indices_length:
  "move_indices N rnd ks s = Inr s' \<Longrightarrow> length (ants s') = length (ants s)"
proof (induction ks arbitrary: s)
  case Nil
  then show ?case by simp
next
  case (Cons k ks)
  from Cons.prems obtain s1 where 1: "move_nth N (rnd k) k s = Inr s1"
    and 2: "move_indices N rnd ks s1 = Inr s'" by (rule move_indices_Cons_InrD)
  show ?case using Cons.IH [OF 2] move_nth_length [OF 1] by simp
qed

lemma move_indices_steps:
  "move_indices N rnd ks s = Inr s' \<Longrightarrow> steps s' = steps s"
proof (induction ks arbitrary: s)
  case Nil
  then show ?case by simp
next
  case (Cons k ks)
  from Cons.prems obtain s1 where 1: "move_nth N (rnd k) k s = Inr s1"
    and 2: "move_indices N rnd ks s1 = Inr s'" by (rule move_indices_Cons_InrD)
  show ?case using Cons.IH [OF 2] move_nth_steps [OF 1] by simp
qed

lemma move_indices_other:
  "move_indices N rnd ks s = Inr s' \<Longrightarrow> j \<notin> set ks \<Longrightarrow> ants s' ! j = ants s ! j"
proof (induction ks arbitrary: s)
  case Nil
  then show ?case by simp
next
  case (Cons k ks)
  from Cons.prems(1) obtain s1 where 1: "move_nth N (rnd k) k s = Inr s1"
    and 2: "move_indices N rnd ks s1 = Inr s'" by (rule move_indices_Cons_InrD)
  from Cons.prems(2) have "j \<noteq> k" "j \<notin> set ks" by auto
  then show ?case using Cons.IH [OF 2] move_nth_other [OF 1] by simp
qed

text \<open>A cell at full strength stays at full strength through any further moves.\<close>

lemma move_nth_keeps_full:
  "move_nth N r k s = Inr s' \<Longrightarrow> pheromone_strengths s c = 1 \<Longrightarrow> pheromone_strengths s' c = 1"
  by (simp add: move_nth_cell(3))

lemma move_indices_keeps_full:
  "move_indices N rnd ks s = Inr s' \<Longrightarrow> pheromone_strengths s c = 1
     \<Longrightarrow> pheromone_strengths s' c = 1"
proof (induction ks arbitrary: s)
  case Nil
  then show ?case by simp
next
  case (Cons k ks)
  from Cons.prems(1) obtain s1 where 1: "move_nth N (rnd k) k s = Inr s1"
    and 2: "move_indices N rnd ks s1 = Inr s'" by (rule move_indices_Cons_InrD)
  show ?case using Cons.IH [OF 2] move_nth_keeps_full [OF 1 Cons.prems(2)] by simp
qed

text \<open>After the loop every cell an ant started on is at full strength.\<close>

lemma move_indices_deposits:
  "move_indices N rnd ks s = Inr s' \<Longrightarrow> distinct ks \<Longrightarrow> k \<in> set ks
     \<Longrightarrow> pheromone_strengths s' (cell_of N (ants s ! k)) = 1"
proof (induction ks arbitrary: s)
  case Nil
  then show ?case by simp
next
  case (Cons k0 ks)
  from Cons.prems(1) obtain s1 where 1: "move_nth N (rnd k0) k0 s = Inr s1"
    and 2: "move_indices N rnd ks s1 = Inr s'" by (rule move_indices_Cons_InrD)
  show ?case
  proof (cases "k = k0")
    case True
    have "pheromone_strengths s1 (cell_of N (ants s ! k0)) = 1"
      by (simp add: move_nth_cell(3) [OF 1])
    then show ?thesis using True move_indices_keeps_full [OF 2] by simp
  next
    case False
    with Cons.prems have "k \<in> set ks" "distinct ks" by auto
    then have "pheromone_strengths s' (cell_of N (ants s1 ! k)) = 1"
      using Cons.IH [OF 2] by simp
    then show ?thesis using move_nth_other [OF 1 False] by simp
  qed
qed

text \<open>After the loop every ant that was moved is on the grid.\<close>

lemma move_indices_positions:
  "move_indices N rnd ks s = Inr s' \<Longrightarrow> k \<in> set ks
     \<Longrightarrow> 0 \<le> ant_x (ants s' ! k) \<and> ant_x (ants s' ! k) < N \<and>
         0 \<le> ant_y (ants s' ! k) \<and> ant_y (ants s' ! k) < N"
proof (induction ks arbitrary: s)
  case Nil
  then show ?case by simp
next
  case (Cons k0 ks)
  from Cons.prems(1) obtain s1 where 1: "move_nth N (rnd k0) k0 s = Inr s1"
    and 2: "move_indices N rnd ks s1 = Inr s'" by (rule move_indices_Cons_InrD)
  show ?case
  proof (cases "k \<in> set ks")
    case True
    then show ?thesis using Cons.IH [OF 2] by simp
  next
    case False
    with Cons.prems(2) have k: "k = k0" by simp
    have "ants s' ! k = ants s1 ! k" using move_indices_other [OF 2 False] .
    then show ?thesis using move_nth_moved [OF 1] k by simp
  qed
qed

lemma move_indices_total:
  "valid_state N s \<Longrightarrow> \<forall>k \<in> set ks. k < length (ants s)
     \<Longrightarrow> \<exists>s'. move_indices N rnd ks s = Inr s' \<and> valid_state N s'"
proof (induction ks arbitrary: s)
  case Nil
  then show ?case by simp
next
  case (Cons k ks)
  from Cons.prems have "k < length (ants s)" by simp
  from move_nth_total [OF Cons.prems(1) this, of "rnd k"] obtain s1 where
    1: "move_nth N (rnd k) k s = Inr s1" and v: "valid_state N s1"
    and l: "length (ants s1) = length (ants s)" by blast
  from Cons.prems(2) l have "\<forall>j \<in> set ks. j < length (ants s1)" by simp
  from Cons.IH [OF v this] obtain s' where "move_indices N rnd ks s1 = Inr s'" "valid_state N s'"
    by blast
  then show ?case using 1 by simp
qed

lemma run_step_InrD:
  assumes "run_step N rnd s = Inr s'"
  obtains s1 where "move_indices N rnd [0..<length (ants s)] s = Inr s1"
    and "s' = (decay_pheromones s1)\<lparr>steps := steps s1 + 1\<rparr>"
  using assms by (auto simp: run_step_def split: sum.splits)

lemma decay_ants [simp]: "ants (decay_pheromones s) = ants s"
  by (simp add: decay_pheromones_def Let_def)

lemma decay_grid [simp]: "grid (decay_pheromones s) = grid s"
  by (simp add: decay_pheromones_def Let_def)

lemma decay_steps [simp]: "steps (decay_pheromones s) = steps s"
  by (simp add: decay_pheromones_def Let_def)

lemma run_step_length: "run_step N rnd s = Inr s' \<Longrightarrow> length (ants s') = length (ants s)"
  by (erule run_step_InrD) (simp add: move_indices_length)

lemma run_step_owner:
  assumes "run_step N rnd s = Inr s'" "pheromone_strengths s' c = 0"
  shows "pheromones s' c = 0"
proof -
  from assms(1) obtain s1 where
    s': "s' = (decay_pheromones s1)\<lparr>steps := steps s1 + 1\<rparr>" by (rule run_step_InrD)
  then have "pheromone_strengths (decay_pheromones s1) c = 0" using assms(2) by simp
  then have "pheromones (decay_pheromones s1) c = 0" by (simp add: decay_owner)
  then show ?thesis using s' by simp
qed

lemma run_step_positions:
  assumes "run_step N rnd s = Inr s'" "k < length (ants s')"
  shows "0 \<le> ant_x (ants s' ! k) \<and> ant_x (ants s' ! k) < N \<and>
         0 \<le> ant_y (ants s' ! k) \<and> ant_y (ants s' ! k) < N"
proof -
  from assms(1) obtain s1 where m: "move_indices N rnd [0..<length (ants s)] s = Inr s1"
    and s': "s' = (decay_pheromones s1)\<lparr>steps := steps s1 + 1\<rparr>" by (rule run_step_InrD)
  have "k < length (ants s)" using assms(2) run_step_length [OF assms(1)] by simp
  then have "k \<in> set [0..<length (ants s)]" by simp
  from move_indices_positions [OF m this] show ?thesis using s' by simp
qed

lemma run_step_deposit:
  assumes "run_step N rnd s = Inr s'" "a \<in> set (ants s)"
  shows "pheromone_strengths s' (cell_of N a) = float_lit (8 / 10)"
proof -
  from assms(1) obtain s1 where m: "move_indices N rnd [0..<length (ants s)] s = Inr s1"
    and s': "s' = (decay_pheromones s1)\<lparr>steps := steps s1 + 1\<rparr>" by (rule run_step_InrD)
  from assms(2) obtain k where k: "k < length (ants s)" "a = ants s ! k"
    by (auto simp: in_set_conv_nth)
  then have "k \<in> set [0..<length (ants s)]" by simp
  from move_indices_deposits [OF m _ this] have "pheromone_strengths s1 (cell_of N a) = 1"
    using k by simp
  then have "pheromone_strengths (decay_pheromones s1) (cell_of N a) = float_lit (8 / 10)"
    by (simp add: decay_strength decay_val_1 float_lit_0_8 np_clip_def)
  then show ?thesis using s' by simp
qed

lemma run_step_total:
  assumes "valid_state N s"
  shows "\<exists>s'. run_step N rnd s = Inr s' \<and> valid_state N s'"
proof -
  have "\<forall>k \<in> set [0..<length (ants s)]. k < length (ants s)" by simp
  from move_indices_total [OF assms this] obtain s1 where
    m: "move_indices N rnd [0..<length (ants s)] s = Inr s1" and v: "valid_state N s1" by blast
  have "valid_state N ((decay_pheromones s1)\<lparr>steps := steps s1 + 1\<rparr>)"
    using v by (simp add: valid_state_def)
  then show ?thesis using m by (simp add: run_step_def)
qed

lemma run_steps_total:
  assumes "valid_state N s"
  shows "\<exists>s'. run_steps N rnds n s = Inr s' \<and> valid_state N s'"
proof (induction n)
  case 0
  then show ?case using assms by simp
next
  case (Suc n)
  then obtain s1 where 1: "run_steps N rnds n s = Inr s1" and v: "valid_state N s1" by blast
  from run_step_total [OF v, of "rnds n"] show ?case using 1 by simp
qed

section \<open>The scenario of the specification\<close>

lemma valid_scenario: "valid_state 10 scenario"
  by (simp add: valid_state_def valid_ant_def scenario_def fits_int64_def)

lemma scenario_step: "run_step 10 (const_draws (float_lit (9 / 10))) scenario = Inr scenario_after1"
  using run_step_total [OF valid_scenario, of "const_draws (float_lit (9 / 10))"]
  by (auto simp: scenario_after1_def)

lemma scenario_move: "move_nth 10 (float_lit (9 / 10)) 0 scenario = Inr scenario_moved"
  using move_nth_total [OF valid_scenario, of 0 "float_lit (9 / 10)"]
  by (auto simp: scenario_moved_def scenario_def)

text \<open>When the constructor returns, and what it returns.\<close>

lemma init_Inr_iff:
  "LangtonsAntSimulation_init max_alloc N d1 d2 = Inr s \<longleftrightarrow>
     0 \<le> N \<and> 8 * N * N < 2 ^ 63 \<and> 8 * N * N \<le> max_alloc \<and>
     s = \<lparr>grid = (\<lambda>c. 0), pheromones = (\<lambda>c. 0), pheromone_strengths = (\<lambda>c. 0),
          ants = [\<lparr>ant_x = N div 2, ant_y = N div 2, direction = d1, pheromone = 1\<rparr>,
                  \<lparr>ant_x = N div 2 + 10, ant_y = N div 2 + 10, direction = d2,
                     pheromone = 2\<rparr>],
          steps = 0\<rparr>"
  by (auto simp: LangtonsAntSimulation_init_def np_zeros_def)

lemma source_start_eq:
  "source_start =
     \<lparr>grid = (\<lambda>c. 0), pheromones = (\<lambda>c. 0), pheromone_strengths = (\<lambda>c. 0),
      ants = [\<lparr>ant_x = 500, ant_y = 500, direction = 0, pheromone = 1\<rparr>,
              \<lparr>ant_x = 510, ant_y = 510, direction = 0, pheromone = 2\<rparr>],
      steps = 0\<rparr>"
  by (simp add: source_start_def LangtonsAntSimulation_init_def np_zeros_def machine_bytes_def)

lemma source_init:
  "LangtonsAntSimulation_init machine_bytes 1000 0 0 = Inr source_start"
  by (simp add: source_start_eq init_Inr_iff machine_bytes_def)

lemma source_ants:
  "ants source_start = [\<lparr>ant_x = 500, ant_y = 500, direction = 0, pheromone = 1\<rparr>,
                        \<lparr>ant_x = 510, ant_y = 510, direction = 0, pheromone = 2\<rparr>]"
  by (simp add: source_start_eq)

lemma valid_source: "valid_state 1000 source_start"
  by (simp add: valid_state_def valid_ant_def source_ants fits_int64_def)

lemma scenario_moved_eq:
  "scenario_moved =
     \<lparr>grid = (\<lambda>c. 0)((5, 5) := 1), pheromones = (\<lambda>c. 0)((5, 5) := 1),
      pheromone_strengths = (\<lambda>c. 0)((5, 5) := 1),
      ants = [\<lparr>ant_x = 6, ant_y = 5, direction = 1, pheromone = 1\<rparr>], steps = 0\<rparr>"
  by (simp add: scenario_moved_def move_nth_def move_def scenario_def check_index_def
      wrap_index_def Let_def move_straight_prob_def float_lit_0_5 float_lit_0_9 fits_int64_def
      list_getitem_def DIRECTIONS_def new_direction_def)

lemma scenario_after1_eq:
  "scenario_after1 = (decay_pheromones scenario_moved)\<lparr>steps := steps scenario_moved + 1\<rparr>"
proof -
  have "length (ants scenario) = 1" by (simp add: scenario_def)
  then have "run_step 10 (const_draws (float_lit (9 / 10))) scenario =
      Inr ((decay_pheromones scenario_moved)\<lparr>steps := steps scenario_moved + 1\<rparr>)"
    by (simp add: run_step_def const_draws_def scenario_move)
  then show ?thesis by (simp add: scenario_after1_def)
qed

text \<open>
  C2 as stated fails: after one iteration with draw \<open>0.9\<close> the ant faces right at
  \<open>(6, 5)\<close> and cell \<open>(5, 5)\<close> is black with owner 1, but its strength is not \<open>1.0\<close>:
  the decay of the same iteration has already lowered it.
\<close>

theorem scenario_first_step_counterexample:
  "\<not> isl (run_step 10 (const_draws (float_lit (9 / 10))) scenario) \<and>
   \<not> (direction (ants scenario_after1 ! 0) = 1 \<and>
      ant_x (ants scenario_after1 ! 0) = 6 \<and> ant_y (ants scenario_after1 ! 0) = 5 \<and>
      grid scenario_after1 (5, 5) = 1 \<and> pheromones scenario_after1 (5, 5) = 1 \<and>
      pheromone_strengths scenario_after1 (5, 5) = 1)"
proof -
  have "pheromone_strengths scenario_after1 (5, 5) = 3602879701896397 / 4503599627370496"
    by (simp add: scenario_after1_eq decay_strength scenario_moved_eq decay_val_1 np_clip_def)
  then show ?thesis by (simp add: scenario_step)
qed

text \<open>
  C2, amended: from the scenario state, one iteration with draw \<open>0.9\<close> succeeds and
  leaves the ant with direction 1 at \<open>(6, 5)\<close>, cell \<open>(5, 5)\<close> with colour 1 and
  owner 1, and the strength of cell \<open>(5, 5)\<close>, which is \<open>1.0\<close> right after the ant's
  move, at \<open>0.8\<close> when the iteration ends.
\<close>

theorem scenario_first_step:
  "\<not> isl (run_step 10 (const_draws (float_lit (9 / 10))) scenario) \<and>
   length (ants scenario_after1) = 1 \<and>
   direction (ants scenario_after1 ! 0) = 1 \<and>
   ant_x (ants scenario_after1 ! 0) = 6 \<and> ant_y (ants scenario_after1 ! 0) = 5 \<and>
   grid scenario_after1 (5, 5) = 1 \<and> pheromones scenario_after1 (5, 5) = 1 \<and>
   pheromone_strengths scenario_moved (5, 5) = 1 \<and>
   pheromone_strengths scenario_after1 (5, 5) = float_lit (8 / 10) \<and>
   steps scenario_after1 = 1"
proof -
  have st: "pheromone_strengths scenario_after1 (5, 5) = float_lit (8 / 10)"
    by (simp add: scenario_after1_eq decay_strength scenario_moved_eq decay_val_1 np_clip_def
        float_lit_0_8)
  have ow: "pheromones scenario_after1 (5, 5) = 1"
    using st by (simp add: scenario_after1_eq decay_owner float_lit_0_8 scenario_moved_eq)
  have rest: "length (ants scenario_after1) = 1 \<and>
   direction (ants scenario_after1 ! 0) = 1 \<and>
   ant_x (ants scenario_after1 ! 0) = 6 \<and> ant_y (ants scenario_after1 ! 0) = 5 \<and>
   grid scenario_after1 (5, 5) = 1 \<and> pheromone_strengths scenario_moved (5, 5) = 1 \<and>
   steps scenario_after1 = 1"
    by (simp add: scenario_after1_eq scenario_moved_eq)
  show ?thesis using st ow rest by (simp add: scenario_step)
qed

section \<open>Deposit and decay within one iteration\<close>

text \<open>
  C1 as stated fails: from the source's own start (side 1000, ants at \<open>(500, 500)\<close> and
  \<open>(510, 510)\<close>), after one iteration the cell the second ant deposited on does not
  hold strength \<open>1.0\<close>.
\<close>

theorem fresh_deposit_counterexample:
  "\<not> isl (LangtonsAntSimulation_init machine_bytes 1000 0 0) \<and>
   \<not> isl (run_step 1000 (const_draws (float_lit (9 / 10))) source_start) \<and>
   cell_of 1000 (ants source_start ! 1) = (510, 510) \<and>
   pheromone_strengths
     (projr (run_step 1000 (const_draws (float_lit (9 / 10))) source_start)) (510, 510) \<noteq> 1"
proof -
  from run_step_total [OF valid_source, of "const_draws (float_lit (9 / 10))"]
  obtain s' where s': "run_step 1000 (const_draws (float_lit (9 / 10))) source_start = Inr s'"
    by blast
  have c: "cell_of 1000 (ants source_start ! 1) = (510, 510)"
    by (simp add: source_ants cell_of_def wrap_index_def)
  have "ants source_start ! 1 \<in> set (ants source_start)" by (simp add: source_ants)
  from run_step_deposit [OF s' this] have "pheromone_strengths s' (510, 510) = float_lit (8 / 10)"
    unfolding c .
  then show ?thesis using s' c by (simp add: source_init float_lit_0_8)
qed

text \<open>
  C1, amended: whenever an iteration succeeds, every cell an ant stood on at its start
  (where that ant deposits at strength \<open>1.0\<close>) holds \<open>1.0 - DECAY_RATE\<close> afterwards,
  which is the binary64 value \<open>0.8\<close>: the ants move first and the decay of the same
  iteration then lowers the fresh deposit once.
\<close>

theorem fresh_deposit_decayed_once:
  assumes "run_step GRID_SIZE rnd s = Inr s'" and "a \<in> set (ants s)"
  shows "pheromone_strengths s' (cell_of GRID_SIZE a) = float_sub 1 DECAY_RATE \<and>
         float_sub 1 DECAY_RATE = float_lit (8 / 10) \<and> float_lit (8 / 10) < 1"
  using run_step_deposit [OF assms] by (simp add: decay_val_1 float_lit_0_8)

theorem fresh_deposit_decayed_once_witness:
  "run_step 10 (const_draws (float_lit (9 / 10))) scenario = Inr scenario_after1 \<and>
   ants scenario ! 0 \<in> set (ants scenario) \<and>
   cell_of 10 (ants scenario ! 0) = (5, 5) \<and>
   pheromone_strengths scenario_after1 (5, 5) = float_sub 1 DECAY_RATE \<and>
   float_sub 1 DECAY_RATE = float_lit (8 / 10) \<and> float_lit (8 / 10) < 1"
proof -
  have h: "ants scenario ! 0 \<in> set (ants scenario)" by (simp add: scenario_def)
  have c: "cell_of 10 (ants scenario ! 0) = (5, 5)"
    by (simp add: scenario_def cell_of_def wrap_index_def)
  show ?thesis
    using fresh_deposit_decayed_once [OF scenario_step h] scenario_step h c by simp
qed

section \<open>Construction and totality of stepping\<close>

text \<open>
  C5 as stated fails: with grid side 0 the construction succeeds (nothing validates the
  side), and the first iteration then raises an IndexError.
\<close>

theorem no_configuration_error_counterexample:
  "\<not> isl (LangtonsAntSimulation_init machine_bytes 0 0 0) \<and>
   isl (run_step 0 (const_draws 0) (projr (LangtonsAntSimulation_init machine_bytes 0 0 0))) \<and>
   projl (run_step 0 (const_draws 0) (projr (LangtonsAntSimulation_init machine_bytes 0 0 0)))
     = IndexError"
  by (simp add: LangtonsAntSimulation_init_def np_zeros_def machine_bytes_def run_step_def
      move_nth_def move_def check_index_def upt_rec)

text \<open>The constructor fails exactly when numpy cannot build the arrays.\<close>

lemma init_fails_iff:
  "isl (LangtonsAntSimulation_init max_alloc N d1 d2) \<longleftrightarrow>
     N < 0 \<or> 2 ^ 63 \<le> 8 * N * N \<or> max_alloc < 8 * N * N"
proof -
  have "isl (LangtonsAntSimulation_init max_alloc N d1 d2) \<longleftrightarrow>
          \<not> (\<exists>s. LangtonsAntSimulation_init max_alloc N d1 d2 = Inr s)"
    by (cases "LangtonsAntSimulation_init max_alloc N d1 d2") simp_all
  then show ?thesis unfolding init_Inr_iff by auto
qed

lemma init_error_kind:
  "LangtonsAntSimulation_init max_alloc N d1 d2 = Inl e \<Longrightarrow> e = ValueError \<or> e = MemoryError"
  by (auto simp: LangtonsAntSimulation_init_def np_zeros_def split: if_splits)

lemma init_valid:
  assumes "21 \<le> N" "8 * N * N < 2 ^ 63" "8 * N * N \<le> max_alloc"
    "d1 \<in> {0..3}" "d2 \<in> {0..3}"
  shows "\<exists>s0. LangtonsAntSimulation_init max_alloc N d1 d2 = Inr s0 \<and> valid_state N s0"
proof -
  have "0 \<le> N div 2" "N div 2 < N" "N div 2 + 10 < N" using assms(1) by presburger+
  then show ?thesis
    using assms
    by (simp add: init_Inr_iff valid_state_def valid_ant_def fits_int64_def)
qed

text \<open>
  C5, amended: the construction validates nothing and raises no configuration error; it
  fails only when numpy cannot build the arrays. For a grid side of at least 21 (so
  that both start positions, \<open>GRID_SIZE div 2\<close> and \<open>GRID_SIZE div 2 + 10\<close>, lie on the
  grid) whose arrays numpy can build (the \<open>8 * GRID_SIZE * GRID_SIZE\<close> bytes of an
  array fit a signed 64-bit size and the allocator grants a block of that size) and
  start directions in \<open>0..3\<close>, it succeeds, and from the state it builds no number of
  iterations ever fails, whatever the random draws.
\<close>

theorem construction_and_stepping_total:
  assumes "21 \<le> GRID_SIZE" and "8 * GRID_SIZE * GRID_SIZE < 2 ^ 63"
    and "8 * GRID_SIZE * GRID_SIZE \<le> max_alloc" and "d1 \<in> {0..3}" and "d2 \<in> {0..3}"
  shows "\<exists>s0. LangtonsAntSimulation_init max_alloc GRID_SIZE d1 d2 = Inr s0 \<and>
           (\<forall>rnds n. \<exists>s. run_steps GRID_SIZE rnds n s0 = Inr s)"
proof -
  from init_valid [OF assms] obtain s0 where
    i: "LangtonsAntSimulation_init max_alloc GRID_SIZE d1 d2 = Inr s0"
    and v: "valid_state GRID_SIZE s0"
    by blast
  have "\<exists>s. run_steps GRID_SIZE rnds n s0 = Inr s" for rnds n
    using run_steps_total [OF v, of rnds n] by blast
  with i show ?thesis by blast
qed

theorem construction_and_stepping_total_witness:
  "(21::int) \<le> 1000 \<and> (8::int) * 1000 * 1000 < 2 ^ 63 \<and>
   (8::int) * 1000 * 1000 \<le> machine_bytes \<and> (0::int) \<in> {0..3} \<and> (3::int) \<in> {0..3} \<and>
   (\<exists>s0. LangtonsAntSimulation_init machine_bytes 1000 0 3 = Inr s0 \<and>
           (\<forall>rnds n. \<exists>s. run_steps 1000 rnds n s0 = Inr s))"
proof -
  have h1: "(21::int) \<le> 1000" by simp
  have h2: "(8::int) * 1000 * 1000 < 2 ^ 63" by simp
  have h3: "(8::int) * 1000 * 1000 \<le> machine_bytes" by (simp add: machine_bytes_def)
  have h4: "(0::int) \<in> {0..3}" by simp
  have h5: "(3::int) \<in> {0..3}" by simp
  show ?thesis
    using construction_and_stepping_total [OF h1 h2 h3 h4 h5] h3 by simp
qed

section \<open>The turning rule\<close>

lemma scenario_move_result:
  "move 10 (float_lit (9 / 10)) (ants scenario ! 0) (grid scenario) (pheromones scenario)
      (pheromone_strengths scenario)
    = Inr (ants scenario_moved ! 0, grid scenario_moved, pheromones scenario_moved,
           pheromone_strengths scenario_moved)"
proof -
  from move_nth_InrD(2) [OF scenario_move] obtain a' g' p' ps' where
    m: "move 10 (float_lit (9 / 10)) (ants scenario ! 0) (grid scenario) (pheromones scenario)
          (pheromone_strengths scenario) = Inr (a', g', p', ps')"
    and s: "scenario_moved = scenario\<lparr>grid := g', pheromones := p', pheromone_strengths := ps',
                 ants := (ants scenario)[0 := a']\<rparr>" by blast
  have "length (ants scenario) = 1" by (simp add: scenario_def)
  then have a: "ants scenario_moved ! 0 = a'" unfolding s by simp
  have "grid scenario_moved = g'" "pheromones scenario_moved = p'"
    "pheromone_strengths scenario_moved = ps'" unfolding s by simp_all
  with a m show ?thesis by simp
qed

text \<open>
  C6: in every successful move on a cell with colour \<open>c\<close>, owner \<open>ow\<close> and strength
  \<open>s\<close>, let \<open>prob\<close> be \<open>0.8 * s\<close> (a binary64 product) if the owner is the agent's
  own id, \<open>0.2 * s\<close> if the owner is nonzero and another id, and \<open>0.5\<close> otherwise.
  The new direction is the old one when the draw \<open>r\<close> is below \<open>prob\<close>; otherwise it
  is \<open>(old + 1) mod 4\<close> on colour 0 and \<open>(old - 1) mod 4\<close> on any other colour, in
  particular on colour 1.
\<close>

theorem move_direction_rule:
  assumes "move GRID_SIZE r a g p ps = Inr (a', g', p', ps')"
    and "c = g (cell_of GRID_SIZE a)" and "ow = p (cell_of GRID_SIZE a)"
    and "s = ps (cell_of GRID_SIZE a)"
    and "prob = (if ow = pheromone a then float_mul (float_lit (8 / 10)) s
                 else if ow \<noteq> 0 \<and> ow \<noteq> pheromone a then float_mul (float_lit (2 / 10)) s
                 else 1 / 2)"
  shows "direction a' =
           (if r < prob then direction a
            else if c = 0 then (direction a + 1) mod 4
            else (direction a - 1) mod 4)"
proof -
  have d: "direction a' =
      new_direction r (move_straight_prob (pheromone a) ow s) (direction a) c"
    unfolding assms(2-4) by (subst move_InrD(9) [OF assms(1)]) simp
  have pr: "move_straight_prob (pheromone a) ow s = prob"
    unfolding assms(5) by (simp add: move_straight_prob_def float_lit_0_5)
  have "(direction a + - 1) mod 4 = (direction a - 1) mod 4" by simp
  then show ?thesis unfolding d pr new_direction_def by simp
qed

theorem move_direction_rule_witness:
  "move 10 (float_lit (9 / 10)) (ants scenario ! 0) (grid scenario) (pheromones scenario)
      (pheromone_strengths scenario)
    = Inr (ants scenario_moved ! 0, grid scenario_moved, pheromones scenario_moved,
           pheromone_strengths scenario_moved) \<and>
   grid scenario (cell_of 10 (ants scenario ! 0)) = 0 \<and>
   pheromones scenario (cell_of 10 (ants scenario ! 0)) = 0 \<and>
   \<not> float_lit (9 / 10) < 1 / 2 \<and>
   direction (ants scenario_moved ! 0) = (direction (ants scenario ! 0) + 1) mod 4"
proof -
  have c: "(0::int) = grid scenario (cell_of 10 (ants scenario ! 0))"
    by (simp add: scenario_def)
  have ow: "(0::int) = pheromones scenario (cell_of 10 (ants scenario ! 0))"
    by (simp add: scenario_def)
  have s: "(0::rat) = pheromone_strengths scenario (cell_of 10 (ants scenario ! 0))"
    by (simp add: scenario_def)
  have pr: "1 / 2 = (if (0::int) = pheromone (ants scenario ! 0)
                 then float_mul (float_lit (8 / 10)) 0
                 else if (0::int) \<noteq> 0 \<and> 0 \<noteq> pheromone (ants scenario ! 0)
                   then float_mul (float_lit (2 / 10)) 0
                 else 1 / 2)"
    by (simp add: scenario_def)
  have r: "\<not> float_lit (9 / 10) < 1 / 2" by (simp add: float_lit_0_9)
  show ?thesis
    using move_direction_rule [OF scenario_move_result c ow s pr] scenario_move_result c ow r
    by simp
qed

section \<open>The owner invariant\<close>

lemma run_steps_Suc_InrD:
  assumes "run_steps N rnds (Suc n) s = Inr s'"
  obtains s1 where "run_steps N rnds n s = Inr s1" "run_step N (rnds n) s1 = Inr s'"
  using assms by (auto split: sum.splits)

text \<open>
  C7: in every state reached from a constructed simulation by any number of successful
  iterations, a cell whose strength is 0 has owner 0.
\<close>

theorem owner_invariant:
  assumes "LangtonsAntSimulation_init max_alloc GRID_SIZE d1 d2 = Inr s0"
    and "run_steps GRID_SIZE rnds n s0 = Inr s"
    and "pheromone_strengths s c = 0"
  shows "pheromones s c = 0"
proof (cases n)
  case 0
  then have "s = s0" using assms(2) by simp
  then show ?thesis
    using assms(1) by (simp add: init_Inr_iff)
next
  case (Suc m)
  from assms(2) [unfolded Suc] obtain s1 where "run_step GRID_SIZE (rnds m) s1 = Inr s"
    by (rule run_steps_Suc_InrD)
  then show ?thesis using assms(3) by (rule run_step_owner)
qed

lemma source_step:
  "run_steps 1000 (steady_draws (float_lit (9 / 10))) 1 source_start = Inr source_after1"
  using run_steps_total [OF valid_source, of "steady_draws (float_lit (9 / 10))" 1]
  by (auto simp: source_after1_def)

lemma move_indices_untouched:
  "move_indices N rnd ks s = Inr s' \<Longrightarrow> distinct ks
     \<Longrightarrow> \<forall>k \<in> set ks. cell_of N (ants s ! k) \<noteq> c
     \<Longrightarrow> grid s' c = grid s c \<and> pheromones s' c = pheromones s c \<and>
         pheromone_strengths s' c = pheromone_strengths s c"
proof (induction ks arbitrary: s)
  case Nil
  then show ?case by simp
next
  case (Cons k0 ks)
  from Cons.prems(1) obtain s1 where 1: "move_nth N (rnd k0) k0 s = Inr s1"
    and 2: "move_indices N rnd ks s1 = Inr s'" by (rule move_indices_Cons_InrD)
  from Cons.prems(3) have ne: "cell_of N (ants s ! k0) \<noteq> c" by simp
  have a: "grid s1 c = grid s c \<and> pheromones s1 c = pheromones s c \<and>
         pheromone_strengths s1 c = pheromone_strengths s c"
    using ne by (simp add: move_nth_cell [OF 1])
  have "\<forall>k \<in> set ks. cell_of N (ants s1 ! k) \<noteq> c"
  proof
    fix k assume k: "k \<in> set ks"
    with Cons.prems(2) have "k \<noteq> k0" by auto
    then have "ants s1 ! k = ants s ! k" by (rule move_nth_other [OF 1])
    then show "cell_of N (ants s1 ! k) \<noteq> c" using Cons.prems(3) k by simp
  qed
  moreover have "distinct ks" using Cons.prems(2) by simp
  ultimately show ?case using Cons.IH [OF 2] a by simp
qed

lemma run_step_untouched:
  assumes "run_step N rnd s = Inr s'" "\<forall>a \<in> set (ants s). cell_of N a \<noteq> c"
    and "pheromone_strengths s c = 0"
  shows "pheromone_strengths s' c = 0"
proof -
  from assms(1) obtain s1 where m: "move_indices N rnd [0..<length (ants s)] s = Inr s1"
    and s': "s' = (decay_pheromones s1)\<lparr>steps := steps s1 + 1\<rparr>" by (rule run_step_InrD)
  have "\<forall>k \<in> set [0..<length (ants s)]. cell_of N (ants s ! k) \<noteq> c"
    using assms(2) by simp
  from move_indices_untouched [OF m _ this] have "pheromone_strengths s1 c = 0"
    using assms(3) by simp
  then show ?thesis using s' by (simp add: decay_strength np_clip_def)
qed

theorem owner_invariant_witness:
  "LangtonsAntSimulation_init machine_bytes 1000 0 0 = Inr source_start \<and>
   run_steps 1000 (steady_draws (float_lit (9 / 10))) 1 source_start = Inr source_after1 \<and>
   pheromone_strengths source_after1 (0, 0) = 0 \<and>
   pheromones source_after1 (0, 0) = 0"
proof -
  have "run_step 1000 (steady_draws (float_lit (9 / 10)) 0) source_start = Inr source_after1"
    using source_step by (simp add: eval_nat_numeral)
  moreover have "\<forall>a \<in> set (ants source_start). cell_of 1000 a \<noteq> (0, 0)"
    by (simp add: source_ants cell_of_def wrap_index_def)
  moreover have "pheromone_strengths source_start (0, 0) = 0"
    by (simp add: source_start_eq)
  ultimately have z: "pheromone_strengths source_after1 (0, 0) = 0"
    by (rule run_step_untouched)
  show ?thesis
    using owner_invariant [OF source_init source_step z] source_init source_step z by simp
qed

section \<open>What one move changes\<close>

lemma xor_one_neq: "(v::int) XOR 1 \<noteq> v"
proof
  assume "v XOR 1 = v"
  then have "v XOR (v XOR 1) = v XOR v" by simp
  then show False by (simp flip: xor.assoc)
qed

lemma move_nth_ant:
  assumes "move_nth N r k s = Inr s'"
    and "c = cell_of N (ants s ! k)"
    and "nd = new_direction r
            (move_straight_prob (pheromone (ants s ! k)) (pheromones s c) (pheromone_strengths s c))
            (direction (ants s ! k)) (grid s c)"
  shows "ants s' ! k =
           (ants s ! k)\<lparr>direction := nd,
              ant_x := (ant_x (ants s ! k) + fst (DIRECTIONS ! nat (wrap_index 4 nd))) mod N,
              ant_y := (ant_y (ants s ! k) + snd (DIRECTIONS ! nat (wrap_index 4 nd))) mod N\<rparr>"
proof -
  from move_nth_InrD [OF assms(1)] obtain a' g' p' ps' where k: "k < length (ants s)" and
    m: "move N r (ants s ! k) (grid s) (pheromones s) (pheromone_strengths s) = Inr (a', g', p', ps')"
    and s': "s' = s\<lparr>grid := g', pheromones := p', pheromone_strengths := ps',
                 ants := (ants s)[k := a']\<rparr>" by blast
  have "ants s' ! k = a'" using s' k by simp
  then show ?thesis unfolding assms(2,3) using move_InrD(9) [OF m] by simp
qed

text \<open>
  C8: a successful move of the ant at index \<open>k\<close> changes exactly one cell, the one \<open>c\<close>
  the ant stood on: there the colour is flipped (and so differs from before), the owner
  becomes the ant's id and the strength 1; every other cell keeps its colour, owner and
  strength. Of the ants only the one at index \<open>k\<close> is rewritten: its direction becomes
  the new direction \<open>nd\<close> and its position the old one plus the unit vector of \<open>nd\<close>,
  each coordinate modulo \<open>GRID_SIZE\<close>, while its id stays; every other ant is unchanged,
  the list keeps its length, and the step counter is untouched.
\<close>

theorem move_frame:
  assumes "move_nth GRID_SIZE r k s = Inr s'"
    and "c = cell_of GRID_SIZE (ants s ! k)"
    and "nd = new_direction r
            (move_straight_prob (pheromone (ants s ! k)) (pheromones s c) (pheromone_strengths s c))
            (direction (ants s ! k)) (grid s c)"
  shows "(\<forall>c'. c' \<noteq> c \<longrightarrow>
            grid s' c' = grid s c' \<and> pheromones s' c' = pheromones s c' \<and>
            pheromone_strengths s' c' = pheromone_strengths s c') \<and>
         grid s' c = grid s c XOR 1 \<and>
         grid s' c \<noteq> grid s c \<and>
         pheromones s' c = pheromone (ants s ! k) \<and>
         pheromone_strengths s' c = 1 \<and>
         length (ants s') = length (ants s) \<and>
         (\<forall>j. j \<noteq> k \<longrightarrow> ants s' ! j = ants s ! j) \<and>
         ants s' ! k =
           (ants s ! k)\<lparr>direction := nd,
              ant_x := (ant_x (ants s ! k) + fst (DIRECTIONS ! nat (wrap_index 4 nd)))
                         mod GRID_SIZE,
              ant_y := (ant_y (ants s ! k) + snd (DIRECTIONS ! nat (wrap_index 4 nd)))
                         mod GRID_SIZE\<rparr> \<and>
         pheromone (ants s' ! k) = pheromone (ants s ! k) \<and>
         steps s' = steps s"
proof -
  have cells: "grid s' = (grid s)(c := grid s c XOR 1)"
    "pheromones s' = (pheromones s)(c := pheromone (ants s ! k))"
    "pheromone_strengths s' = (pheromone_strengths s)(c := 1)"
    unfolding assms(2) by (rule move_nth_cell [OF assms(1)])+
  have ant: "ants s' ! k =
           (ants s ! k)\<lparr>direction := nd,
              ant_x := (ant_x (ants s ! k) + fst (DIRECTIONS ! nat (wrap_index 4 nd)))
                         mod GRID_SIZE,
              ant_y := (ant_y (ants s ! k) + snd (DIRECTIONS ! nat (wrap_index 4 nd)))
                         mod GRID_SIZE\<rparr>"
    using assms by (rule move_nth_ant)
  have id: "pheromone (ants s' ! k) = pheromone (ants s ! k)"
    using move_nth_moved [OF assms(1)] by simp
  show ?thesis
    using cells move_nth_length [OF assms(1)] move_nth_other [OF assms(1)]
      move_nth_steps [OF assms(1)] xor_one_neq [of "grid s c"] id
    by (simp add: ant)
qed

lemma source_move: "move_nth 1000 (float_lit (9 / 10)) 0 source_start = Inr source_moved"
  using move_nth_total [OF valid_source, of 0 "float_lit (9 / 10)"]
  by (auto simp: source_moved_def source_ants)

theorem move_frame_witness:
  "move_nth 1000 (float_lit (9 / 10)) 0 source_start = Inr source_moved \<and>
   (500, 500) = cell_of 1000 (ants source_start ! 0) \<and>
   (1::int) = new_direction (float_lit (9 / 10))
            (move_straight_prob (pheromone (ants source_start ! 0))
               (pheromones source_start (500, 500)) (pheromone_strengths source_start (500, 500)))
            (direction (ants source_start ! 0)) (grid source_start (500, 500)) \<and>
   (0, 0) \<noteq> ((500, 500) :: int \<times> int) \<and>
   grid source_moved (0, 0) = grid source_start (0, 0) \<and>
   pheromones source_moved (0, 0) = pheromones source_start (0, 0) \<and>
   pheromone_strengths source_moved (0, 0) = pheromone_strengths source_start (0, 0) \<and>
   grid source_moved (500, 500) = 1 \<and> pheromones source_moved (500, 500) = 1 \<and>
   pheromone_strengths source_moved (500, 500) = 1 \<and>
   (1::nat) \<noteq> 0 \<and> ants source_moved ! 1 = ants source_start ! 1 \<and>
   ants source_moved ! 0 = \<lparr>ant_x = 501, ant_y = 500, direction = 1, pheromone = 1\<rparr> \<and>
   ants source_moved ! 0 \<noteq> ants source_start ! 0"
proof -
  have c: "(500, 500) = cell_of 1000 (ants source_start ! 0)"
    by (simp add: source_ants cell_of_def wrap_index_def)
  have nd: "(1::int) = new_direction (float_lit (9 / 10))
            (move_straight_prob (pheromone (ants source_start ! 0))
               (pheromones source_start (500, 500)) (pheromone_strengths source_start (500, 500)))
            (direction (ants source_start ! 0)) (grid source_start (500, 500))"
    by (simp add: source_start_eq new_direction_def move_straight_prob_def float_lit_0_5
        float_lit_0_9)
  have a0: "ants source_start ! 0 = \<lparr>ant_x = 500, ant_y = 500, direction = 0, pheromone = 1\<rparr>"
    by (simp add: source_ants)
  have g: "grid source_start (500, 500) = 0" by (simp add: source_start_eq)
  have d: "DIRECTIONS ! nat (wrap_index 4 1) = (1, 0)"
    by (simp add: DIRECTIONS_def wrap_index_def)
  have n: "(1::nat) \<noteq> 0" by simp
  have ne: "(0, 0) \<noteq> ((500, 500) :: int \<times> int)" by simp
  note t = move_frame [OF source_move c nd]
  have far: "grid source_moved (0, 0) = grid source_start (0, 0) \<and>
   pheromones source_moved (0, 0) = pheromones source_start (0, 0) \<and>
   pheromone_strengths source_moved (0, 0) = pheromone_strengths source_start (0, 0)"
    using t ne by blast
  have cell: "grid source_moved (500, 500) = 1 \<and> pheromones source_moved (500, 500) = 1 \<and>
   pheromone_strengths source_moved (500, 500) = 1"
    using t by (simp add: g a0)
  have other: "ants source_moved ! 1 = ants source_start ! 1" using t n by blast
  have moved: "ants source_moved ! 0 = \<lparr>ant_x = 501, ant_y = 500, direction = 1, pheromone = 1\<rparr>"
    using t by (simp add: a0 d)
  have changed: "ants source_moved ! 0 \<noteq> ants source_start ! 0"
    unfolding moved a0 by simp
  show ?thesis using source_move c nd ne far cell n other moved changed by blast
qed

section \<open>Cells of strength 0 are unscented\<close>









section \<open>Toroidal closure\<close>

text \<open>
  C9: after every successful iteration, whatever the number of iterations before it and
  whatever state they started from, each ant has \<open>0 \<le> x < GRID_SIZE\<close> and
  \<open>0 \<le> y < GRID_SIZE\<close>; and a successful move sets each coordinate to the old one
  plus the component of the unit vector of the new direction, modulo \<open>GRID_SIZE\<close>.
\<close>

theorem toroidal_closure:
  "(run_steps GRID_SIZE rnds (Suc n) s = Inr s' \<longrightarrow>
      (\<forall>a \<in> set (ants s'). 0 \<le> ant_x a \<and> ant_x a < GRID_SIZE \<and>
                              0 \<le> ant_y a \<and> ant_y a < GRID_SIZE)) \<and>
   (move GRID_SIZE r b g p ps = Inr (b', g', p', ps') \<longrightarrow>
      ant_x b' = (ant_x b + fst (DIRECTIONS ! nat (wrap_index 4 (direction b')))) mod GRID_SIZE \<and>
      ant_y b' = (ant_y b + snd (DIRECTIONS ! nat (wrap_index 4 (direction b')))) mod GRID_SIZE \<and>
      DIRECTIONS ! nat (wrap_index 4 (direction b')) \<in> {(0, - 1), (1, 0), (0, 1), (- 1, 0)})"
proof -
  have closure: "0 \<le> ant_x a \<and> ant_x a < GRID_SIZE \<and> 0 \<le> ant_y a \<and> ant_y a < GRID_SIZE"
    if run: "run_steps GRID_SIZE rnds (Suc n) s = Inr s'" and a: "a \<in> set (ants s')" for a
  proof -
    from run obtain s1 where st: "run_step GRID_SIZE (rnds n) s1 = Inr s'"
      by (rule run_steps_Suc_InrD)
    from a obtain k where k: "k < length (ants s')" "a = ants s' ! k"
      by (auto simp: in_set_conv_nth)
    from run_step_positions [OF st k(1)] k(2) show ?thesis by simp
  qed
  have update:
    "ant_x b' = (ant_x b + fst (DIRECTIONS ! nat (wrap_index 4 (direction b')))) mod GRID_SIZE \<and>
     ant_y b' = (ant_y b + snd (DIRECTIONS ! nat (wrap_index 4 (direction b')))) mod GRID_SIZE \<and>
     DIRECTIONS ! nat (wrap_index 4 (direction b')) \<in> {(0, - 1), (1, 0), (0, 1), (- 1, 0)}"
    if m: "move GRID_SIZE r b g p ps = Inr (b', g', p', ps')"
  proof -
    have d: "direction b' = new_direction r (move_straight_prob (pheromone b)
        (p (cell_of GRID_SIZE b)) (ps (cell_of GRID_SIZE b))) (direction b) (g (cell_of GRID_SIZE b))"
      by (subst move_InrD(9) [OF m]) simp
    have x: "ant_x b' = (ant_x b + fst (DIRECTIONS ! nat (wrap_index 4 (direction b')))) mod GRID_SIZE"
      unfolding d by (subst move_InrD(9) [OF m]) simp
    have y: "ant_y b' = (ant_y b + snd (DIRECTIONS ! nat (wrap_index 4 (direction b')))) mod GRID_SIZE"
      unfolding d by (subst move_InrD(9) [OF m]) simp
    have "0 \<le> wrap_index 4 (direction b')" "wrap_index 4 (direction b') < 4"
      using move_InrD(7,8) [OF m] unfolding d by (auto simp: wrap_index_def)
    then have "DIRECTIONS ! nat (wrap_index 4 (direction b')) \<in> {(0, - 1), (1, 0), (0, 1), (- 1, 0)}"
      by (rule DIRECTIONS_unit)
    with x y show ?thesis by simp
  qed
  show ?thesis using closure update by blast
qed

lemma steady_draws_const: "steady_draws r t = const_draws r"
  by (rule ext) (simp add: steady_draws_def const_draws_def)

theorem toroidal_closure_witness:
  "run_steps 10 (steady_draws (float_lit (9 / 10))) (Suc 0) scenario = Inr scenario_after1 \<and>
   ants scenario_after1 ! 0 \<in> set (ants scenario_after1) \<and>
   0 \<le> ant_x (ants scenario_after1 ! 0) \<and> ant_x (ants scenario_after1 ! 0) < 10 \<and>
   0 \<le> ant_y (ants scenario_after1 ! 0) \<and> ant_y (ants scenario_after1 ! 0) < 10 \<and>
   move 10 (float_lit (9 / 10)) (ants scenario ! 0) (grid scenario) (pheromones scenario)
      (pheromone_strengths scenario)
    = Inr (ants scenario_moved ! 0, grid scenario_moved, pheromones scenario_moved,
           pheromone_strengths scenario_moved) \<and>
   ant_x (ants scenario_moved ! 0) =
     (ant_x (ants scenario ! 0) +
      fst (DIRECTIONS ! nat (wrap_index 4 (direction (ants scenario_moved ! 0))))) mod 10 \<and>
   ant_y (ants scenario_moved ! 0) =
     (ant_y (ants scenario ! 0) +
      snd (DIRECTIONS ! nat (wrap_index 4 (direction (ants scenario_moved ! 0))))) mod 10"
proof -
  have run: "run_steps 10 (steady_draws (float_lit (9 / 10))) (Suc 0) scenario = Inr scenario_after1"
    by (simp add: steady_draws_const scenario_step)
  have mem: "ants scenario_after1 ! 0 \<in> set (ants scenario_after1)"
    by (simp add: scenario_after1_eq scenario_moved_eq)
  show ?thesis
    using toroidal_closure [of 10 "steady_draws (float_lit (9 / 10))" 0 scenario scenario_after1
        "float_lit (9 / 10)" "ants scenario ! 0" "grid scenario" "pheromones scenario"
        "pheromone_strengths scenario" "ants scenario_moved ! 0" "grid scenario_moved"
        "pheromones scenario_moved" "pheromone_strengths scenario_moved"]
      run mem scenario_move_result
    by blast
qed

section \<open>Own trail against the unscented baseline\<close>

lemma float64_below_five_eighths:
  assumes "is_float64 s" "s < 5 / 8"
  shows "s \<le> 5 / 8 - 1 / 2 ^ 53"
proof (cases "s < 1 / 2")
  case True
  then show ?thesis by simp
next
  case False
  then have lo: "2 powi (- 1) \<le> \<bar>s\<bar>" by simp
  have hi: "\<bar>s\<bar> < 2 powi (- 1 + 1)" using False assms(2) by simp
  define k where "k = rne (s / 2 powi (- 1 - 52))"
  have "round64 s = of_int k * 2 powi (- 1 - 52)"
    unfolding k_def by (rule round64_eqI [OF lo hi]) simp_all
  then have s: "s = of_int k / 2 ^ 53" using assms(1) by (simp add: is_float64_def)
  then have "(of_int k :: rat) < of_int 5629499534213120" using assms(2) by simp
  then have "k < 5629499534213120" by (simp only: of_int_less_iff)
  then have "k \<le> 5629499534213119" by simp
  then have "(of_int k :: rat) \<le> of_int 5629499534213119" by (simp only: of_int_le_iff)
  then show ?thesis unfolding s by simp
qed

lemma own_trail_just_below:
  "round64 (3602879701896397 / 4503599627370496 * (5 / 8 - 1 / 2 ^ 53))
     = 9007199254740991 / 18014398509481984"
  by (subst round64_eqI [where e = "- 2"]) (simp_all add: rne_def Let_def)

lemma own_trail_at_threshold:
  "round64 (3602879701896397 / 4503599627370496 * (5 / 8)) = 1 / 2"
  by (subst round64_eqI [where e = "- 1"]) (simp_all add: rne_def Let_def)

lemma float64_above_five_eighths:
  assumes "is_float64 u" "5 / 8 < u"
  shows "5 / 8 + 1 / 2 ^ 53 \<le> u"
proof (cases "1 \<le> u")
  case True
  have "(5 / 8 + 1 / 2 ^ 53 :: rat) \<le> 1" by simp
  then show ?thesis using True by linarith
next
  case False
  then have hi: "\<bar>u\<bar> < 2 powi (- 1 + 1)" using assms(2) by simp
  have lo: "2 powi (- 1) \<le> \<bar>u\<bar>" using assms(2) by simp
  define k where "k = rne (u / 2 powi (- 1 - 52))"
  have "round64 u = of_int k * 2 powi (- 1 - 52)"
    unfolding k_def by (rule round64_eqI [OF lo hi]) simp_all
  then have u: "u = of_int k / 2 ^ 53" using assms(1) by (simp add: is_float64_def)
  then have "(of_int 5629499534213120 :: rat) < of_int k" using assms(2) by simp
  then have "5629499534213120 < k" by (simp only: of_int_less_iff)
  then have "5629499534213121 \<le> k" by simp
  then have "(of_int 5629499534213121 :: rat) \<le> of_int k" by (simp only: of_int_le_iff)
  then show ?thesis unfolding u by simp
qed

lemma own_trail_just_above:
  "round64 (3602879701896397 / 4503599627370496 * (5 / 8 + 1 / 2 ^ 53))
     = 4503599627370497 / 9007199254740992"
  by (subst round64_eqI [where e = "- 1"]) (simp_all add: rne_def Let_def)

text \<open>
  C10: an agent with a nonzero id computes \<open>0.5\<close> on an unscented cell and the
  binary64 product \<open>0.8 * s\<close> on a cell carrying its own pheromone at strength \<open>s\<close>.
  For every positive binary64 strength \<open>s < 5 / 8\<close> the own-trail probability is
  strictly below the unscented one, for \<open>s \<le> 5 / 8\<close> it is at most the unscented one,
  and for every binary64 strength \<open>u > 5 / 8\<close> it is strictly above: the own trail
  raises the probability of moving straight only beyond \<open>5 / 8\<close>.
\<close>

theorem own_trail_below_baseline:
  assumes "is_float64 s" and "0 < s" and "is_float64 u" and "i \<noteq> 0"
  shows "move_straight_prob i 0 t = 1 / 2 \<and>
         move_straight_prob i i s = float_mul (float_lit (8 / 10)) s \<and>
         (s < 5 / 8 \<longrightarrow> move_straight_prob i i s < move_straight_prob i 0 t) \<and>
         (s \<le> 5 / 8 \<longrightarrow> move_straight_prob i i s \<le> move_straight_prob i 0 t) \<and>
         (5 / 8 < u \<longrightarrow> move_straight_prob i 0 t < move_straight_prob i i u)"
proof -
  let ?d = "3602879701896397 / 4503599627370496 :: rat"
  have base: "move_straight_prob i 0 t = 1 / 2"
    using assms(4) by (simp add: move_straight_prob_def float_lit_0_5)
  have own: "move_straight_prob i i x = float_mul (float_lit (8 / 10)) x" for x
    by (simp add: move_straight_prob_def)
  have p: "move_straight_prob i i x = round64 (?d * x)" for x
    by (simp add: move_straight_prob_def float_mul_def float_lit_0_8)
  have below: "move_straight_prob i i s < 1 / 2" if "s < 5 / 8"
  proof -
    have "s \<le> 5 / 8 - 1 / 2 ^ 53" using assms(1) that by (rule float64_below_five_eighths)
    then have "?d * s \<le> ?d * (5 / 8 - 1 / 2 ^ 53)" by (intro mult_left_mono) simp_all
    then have "round64 (?d * s) \<le> round64 (?d * (5 / 8 - 1 / 2 ^ 53))" by (rule round64_mono)
    then show ?thesis unfolding p own_trail_just_below by simp
  qed
  have upto: "move_straight_prob i i s \<le> 1 / 2" if "s \<le> 5 / 8"
  proof -
    have "?d * s \<le> ?d * (5 / 8)" using that by (intro mult_left_mono) simp_all
    then have "round64 (?d * s) \<le> round64 (?d * (5 / 8))" by (rule round64_mono)
    then show ?thesis unfolding p own_trail_at_threshold by simp
  qed
  have above: "1 / 2 < move_straight_prob i i u" if "5 / 8 < u"
  proof -
    have "5 / 8 + 1 / 2 ^ 53 \<le> u" using assms(3) that by (rule float64_above_five_eighths)
    then have "?d * (5 / 8 + 1 / 2 ^ 53) \<le> ?d * u" by (intro mult_left_mono) simp_all
    then have "round64 (?d * (5 / 8 + 1 / 2 ^ 53)) \<le> round64 (?d * u)" by (rule round64_mono)
    then show ?thesis unfolding p own_trail_just_above by simp
  qed
  have lt: "move_straight_prob i i s < move_straight_prob i 0 t" if "s < 5 / 8"
    unfolding base using that by (rule below)
  have le: "move_straight_prob i i s \<le> move_straight_prob i 0 t" if "s \<le> 5 / 8"
    unfolding base using that by (rule upto)
  have gt: "move_straight_prob i 0 t < move_straight_prob i i u" if "5 / 8 < u"
    unfolding base using that by (rule above)
  show ?thesis using base own [of s] lt le gt by blast
qed

lemma is_float64_half: "is_float64 (1 / 2)"
  unfolding is_float64_def
  by (subst round64_eqI [where e = "- 1"]) (simp_all add: rne_def Let_def)

lemma is_float64_one: "is_float64 1"
  unfolding is_float64_def
  by (subst round64_eqI [where e = 0]) (simp_all add: rne_def Let_def)

theorem own_trail_below_baseline_witness:
  "is_float64 (1 / 2) \<and> (0::rat) < 1 / 2 \<and> is_float64 1 \<and> (1::int) \<noteq> 0 \<and>
   (1 / 2 :: rat) < 5 / 8 \<and> (1 / 2 :: rat) \<le> 5 / 8 \<and> (5 / 8 :: rat) < 1 \<and>
   move_straight_prob 1 0 0 = 1 / 2 \<and>
   move_straight_prob 1 1 (1 / 2) = float_mul (float_lit (8 / 10)) (1 / 2) \<and>
   move_straight_prob 1 1 (1 / 2) < move_straight_prob 1 0 0 \<and>
   move_straight_prob 1 1 (1 / 2) \<le> move_straight_prob 1 0 0 \<and>
   move_straight_prob 1 0 0 < move_straight_prob 1 1 1"
proof -
  have h: "(0::rat) < 1 / 2" by simp
  have i: "(1::int) \<noteq> 0" by simp
  have a: "(1 / 2 :: rat) < 5 / 8" "(1 / 2 :: rat) \<le> 5 / 8" "(5 / 8 :: rat) < 1" by simp_all
  note t = own_trail_below_baseline [OF is_float64_half h is_float64_one i, of 0]
  show ?thesis using t is_float64_half is_float64_one h i a by blast
qed

end
